theory Spec2Isabelle
  imports
    Complex_Main
    "HOL-Library.Char_ord"
    "HOL-Library.List_Lexorder"
    "HOL-Library.Product_Lexorder"
    "HOL-Library.Sublist"
begin

section \<open>Acrylic marker sales dashboard: the metrics core of Acrylic.py\<close>

text \<open>
  The script loads one spreadsheet into a table, derives columns (period keys, ASP, unit
  price, months listed, stability score), filters the rows by the brands selected in the
  sidebar and feeds group-by sums and pivot tables to the charts. The embedding below
  follows the script line by line: a table is the list of its rows, a row is a record with
  one field per column, and every pandas operation the script calls is a list function.
\<close>

subsection \<open>Numbers\<close>

text \<open>
  Numbers of the table are float64. A finite value is kept as the rational number it
  stands for, so rounding is not modelled; the values that are not finite are modelled:
  an infinity comes from a cell that holds one, from a division by zero and from a result
  too large for float64, NaN from a blank cell, from 0/0, from a difference or quotient
  of infinities and from a shifted column. The sign of a zero is not distinguished.
\<close>

datatype fl = Fin rat | PInf | NInf | NaN

text \<open>A result of that size or more is rounded to an infinity: the largest float64 is
  \<open>2 ^ 1024 - 2 ^ 971\<close>, and the bound is half a step above it.\<close>

definition overflow_bound :: rat where
  "overflow_bound = 2 ^ 1024 - 2 ^ 970"

definition fin :: "rat \<Rightarrow> fl" where
  "fin q = (if overflow_bound \<le> q then PInf
            else if q \<le> - overflow_bound then NInf
            else Fin q)"

text \<open>True division of two float64 values, as \<^verbatim>\<open>Series / Series\<close> computes it elementwise:
  no exception on a zero divisor.\<close>

fun fdiv :: "fl \<Rightarrow> fl \<Rightarrow> fl" where
  "fdiv NaN _ = NaN"
| "fdiv _ NaN = NaN"
| "fdiv (Fin a) (Fin b) =
     (if b \<noteq> 0 then fin (a / b)
      else if 0 < a then PInf
      else if a < 0 then NInf
      else NaN)"
| "fdiv (Fin a) PInf = Fin 0"
| "fdiv (Fin a) NInf = Fin 0"
| "fdiv PInf (Fin b) = (if 0 \<le> b then PInf else NInf)"
| "fdiv NInf (Fin b) = (if 0 \<le> b then NInf else PInf)"
| "fdiv PInf PInf = NaN"
| "fdiv PInf NInf = NaN"
| "fdiv NInf PInf = NaN"
| "fdiv NInf NInf = NaN"

fun fadd :: "fl \<Rightarrow> fl \<Rightarrow> fl" where
  "fadd NaN _ = NaN"
| "fadd _ NaN = NaN"
| "fadd (Fin a) (Fin b) = fin (a + b)"
| "fadd (Fin a) PInf = PInf"
| "fadd (Fin a) NInf = NInf"
| "fadd PInf (Fin b) = PInf"
| "fadd NInf (Fin b) = NInf"
| "fadd PInf PInf = PInf"
| "fadd NInf NInf = NInf"
| "fadd PInf NInf = NaN"
| "fadd NInf PInf = NaN"

fun fneg :: "fl \<Rightarrow> fl" where
  "fneg (Fin a) = Fin (- a)"
| "fneg PInf = NInf"
| "fneg NInf = PInf"
| "fneg NaN = NaN"

definition fsub :: "fl \<Rightarrow> fl \<Rightarrow> fl" where
  "fsub a b = fadd a (fneg b)"

text \<open>A sum adds from left to right; the sums of pandas leave NaN entries out.\<close>

definition fsum :: "fl list \<Rightarrow> fl" where
  "fsum xs = foldl fadd (Fin 0) xs"

definition fsum_skipna :: "fl list \<Rightarrow> fl" where
  "fsum_skipna xs = fsum (filter (\<lambda>v. v \<noteq> NaN) xs)"

text \<open>The number a finite value stands for (0 for the others).\<close>

fun fin_val :: "fl \<Rightarrow> rat" where
  "fin_val (Fin a) = a"
| "fin_val _ = 0"

text \<open>
  A cell of a numeric column of the sheet: a number (stored as a number or written as
  text), the text of an infinity, or anything else (blank, other text), which
  \<^verbatim>\<open>pd.to_numeric(..., errors='coerce')\<close> turns into NaN.
\<close>

datatype xl_cell = Num rat | Inf_text | Neg_inf_text | No_number

subsection \<open>Printing values\<close>

definition digit :: "nat \<Rightarrow> char" where
  "digit d = ''0123456789'' ! d"

fun dec :: "nat \<Rightarrow> string" where
  "dec n = (if n < 10 then [digit n] else dec (n div 10) @ [digit (n mod 10)])"

declare dec.simps [simp del]

text \<open>A number printed with at least \<open>w\<close> digits, zeros in front.\<close>

definition pad :: "nat \<Rightarrow> nat \<Rightarrow> string" where
  "pad w n = replicate (w - length (dec n)) CHR ''0'' @ dec n"

text \<open>
  A cell of a text column holds whatever the spreadsheet reader found there: a string,
  nothing (the float NaN, or NaT in a column of dates), an integer, a truth value, a
  float, a date with time or a time of day. A finite float is given by its sign, the
  digits \<open>m\<close> of its shortest decimal form (not ending in 0, and \<open>0\<close> for zero) and the
  power of ten \<open>k\<close> they are scaled by: 5.0 is \<open>CFloat False 5 0\<close> and 0.25 is
  \<open>CFloat False 25 (- 2)\<close>. \<open>CInf True\<close> is minus infinity. A date has year, month,
  day, hour, minute, second and microsecond.
\<close>

datatype cell =
    CStr string
  | CNaN
  | CNaT
  | CInt int
  | CBool bool
  | CInf bool
  | CFloat bool nat int
  | CDatetime nat nat nat nat nat nat nat
  | CTime nat nat nat nat

text \<open>
  The digits of a float as \<^verbatim>\<open>repr\<close> lays them out. With \<open>n\<close> digits and the decimal
  point \<open>decpt\<close> places after the first digit position, the form with an exponent is used
  when \<open>decpt \<le> - 4\<close> or \<open>decpt > 16\<close>; the exponent has at least two digits.
\<close>

definition float_digits :: "nat \<Rightarrow> int \<Rightarrow> string" where
  "float_digits m k =
     (let ds = dec m; n = length ds; decpt = int n + k in
      if decpt \<le> - 4 \<or> 16 < decpt then
        take 1 ds @ (if 1 < n then ''.'' @ drop 1 ds else '''') @ ''e'' @
        (if decpt - 1 < 0 then ''-'' else ''+'') @ pad 2 (nat \<bar>decpt - 1\<bar>)
      else if decpt \<le> 0 then ''0.'' @ replicate (nat (- decpt)) CHR ''0'' @ ds
      else if nat decpt < n then take (nat decpt) ds @ ''.'' @ drop (nat decpt) ds
      else ds @ replicate (nat decpt - n) CHR ''0'' @ ''.0'')"

definition clock :: "nat \<Rightarrow> nat \<Rightarrow> nat \<Rightarrow> nat \<Rightarrow> string" where
  "clock h mi s us =
     pad 2 h @ '':'' @ pad 2 mi @ '':'' @ pad 2 s @
     (if us = 0 then '''' else ''.'' @ pad 6 us)"

text \<open>Python's \<^verbatim>\<open>str\<close> on a cell value.\<close>

fun py_str :: "cell \<Rightarrow> string" where
  "py_str (CStr s) = s"
| "py_str CNaN = ''nan''"
| "py_str CNaT = ''NaT''"
| "py_str (CInt i) = (if i < 0 then CHR ''-'' # dec (nat (- i)) else dec (nat i))"
| "py_str (CBool b) = (if b then ''True'' else ''False'')"
| "py_str (CInf neg) = (if neg then ''-inf'' else ''inf'')"
| "py_str (CFloat neg m k) = (if neg then CHR ''-'' # float_digits m k else float_digits m k)"
| "py_str (CDatetime y mo d h mi s us) =
     pad 4 y @ ''-'' @ pad 2 mo @ ''-'' @ pad 2 d @ '' '' @ clock h mi s us"
| "py_str (CTime h mi s us) = clock h mi s us"

text \<open>Python's \<^verbatim>\<open>c in s\<close> on strings: \<open>c\<close> occurs in \<open>s\<close> as a contiguous piece.\<close>

fun py_in :: "string \<Rightarrow> string \<Rightarrow> bool" where
  "py_in c [] = (c = [])"
| "py_in c (y # ys) = (take (length c) (y # ys) = c \<or> py_in c ys)"

subsection \<open>The spreadsheet and the enriched table\<close>

text \<open>
  The columns of the sheet that the script reads: date, ASIN, brand, the five numeric
  columns (the fifth is the number of pens per package), price tier, ink colour, and the
  descriptive columns ink delivery, dual tip, nib type, packaging and line width.
\<close>

datatype column =
    Col_Date | Col_ASIN | Col_Brand
  | Col_Amount | Col_Sales | Col_Price | Col_Rate | Col_Unit_Count
  | Col_Price_Tier | Col_Ink_Color
  | Col_Ink_Delivery | Col_Dual_Tip | Col_Nib_Type | Col_Packaging | Col_Line_Width

text \<open>
  One row of the sheet. The type parameter is the type of a numeric cell: \<open>xl_cell\<close> in
  the file as read, \<open>fl\<close> after the numeric cleaning. \<open>Date\<close> is the year-month number of
  the sheet, such as 202301. A field of a column that the sheet does not have is never
  read: the first access to such a column raises. The key columns \<open>Date\<close>, \<open>ASIN\<close> and
  \<open>Brand\<close>, where present, are taken to be filled in on every row. The values of the
  five descriptive columns feed only charts and are left out.
\<close>

record 'n sheet_row =
  Date :: nat
  ASIN :: string
  Brand :: string
  Amount :: 'n
  Sales :: 'n
  Price :: 'n
  Rate :: 'n
  Unit_Count :: 'n
  Price_Tier :: string
  Ink_Color :: cell

text \<open>The columns that \<open>load_data_local\<close> adds. \<open>months_listed\<close> and
  \<open>stability_score\<close> are the two columns with Chinese names; a left merge leaves
  \<open>None\<close> (NaN) where the key finds no partner.\<close>

record row = "fl sheet_row" +
  Date_Obj :: "nat \<times> nat"
  Date_Str :: string
  Quarter :: string
  Year :: nat
  ASP :: fl
  Unit_Price :: fl
  months_listed :: "nat option"
  stability_score :: fl

subsection \<open>Dates\<close>

text \<open>
  \<^verbatim>\<open>pd.to_datetime(df['Date'], format='%Y%m')\<close> reads the digits of the number as four
  digits of year followed by a month (01 to 12, or a single digit 1 to 9) and raises on
  anything else. The result is the pair of year and month. The bounds of the timestamp
  type are not modelled.
\<close>

definition to_datetime :: "nat \<Rightarrow> (nat \<times> nat) option" where
  "to_datetime d =
     (if 100000 \<le> d \<and> d \<le> 999999 then
        (if 1 \<le> d mod 100 \<and> d mod 100 \<le> 12 then Some (d div 100, d mod 100) else None)
      else if 10000 \<le> d \<and> d \<le> 99999 then
        (if 1 \<le> d mod 10 then Some (d div 10, d mod 10) else None)
      else None)"

text \<open>The period labels: \<^verbatim>\<open>2023-01\<close> for a month, \<^verbatim>\<open>2023Q1\<close> for a quarter.\<close>

definition month_label :: "nat \<times> nat \<Rightarrow> string" where
  "month_label ym =
     dec (fst ym) @ ''-'' @ (if snd ym < 10 then ''0'' @ dec (snd ym) else dec (snd ym))"

definition quarter_label :: "nat \<times> nat \<Rightarrow> string" where
  "quarter_label ym = dec (fst ym) @ ''Q'' @ dec ((snd ym - 1) div 3 + 1)"

subsection \<open>The pandas operations the script uses\<close>

text \<open>\<^verbatim>\<open>pd.to_numeric(..., errors='coerce')\<close>: a number too large for float64 and the
  text of an infinity give an infinity, a cell without a number gives NaN.\<close>

fun to_numeric :: "xl_cell \<Rightarrow> fl" where
  "to_numeric (Num q) = fin q"
| "to_numeric Inf_text = PInf"
| "to_numeric Neg_inf_text = NInf"
| "to_numeric No_number = NaN"

text \<open>\<^verbatim>\<open>.fillna(0)\<close> on one value.\<close>

definition fillna0 :: "fl \<Rightarrow> fl" where
  "fillna0 v = (if v = NaN then Fin 0 else v)"

definition to_numeric_fillna :: "xl_cell \<Rightarrow> fl" where
  "to_numeric_fillna c = fillna0 (to_numeric c)"

definition nunique :: "'a list \<Rightarrow> nat" where
  "nunique xs = length (remdups xs)"

text \<open>The keys of a group-by: the distinct values, in ascending order.\<close>

definition group_keys :: "('r \<Rightarrow> 'k::linorder) \<Rightarrow> 'r list \<Rightarrow> 'k list" where
  "group_keys key rs = sort (remdups (map key rs))"

text \<open>\<^verbatim>\<open>groupby(key)[col].count()\<close>: the number of rows of each group (the counted
  column has no blank cell).\<close>

definition groupby_count :: "('r \<Rightarrow> 'k::linorder) \<Rightarrow> 'r list \<Rightarrow> ('k \<times> nat) list" where
  "groupby_count key rs =
     map (\<lambda>k. (k, length (filter (\<lambda>r. key r = k) rs))) (group_keys key rs)"

text \<open>\<^verbatim>\<open>groupby(key)[col].sum()\<close>: the sum of the column over each group, in row order.\<close>

definition groupby_sum ::
  "('r \<Rightarrow> 'k::linorder) \<Rightarrow> ('r \<Rightarrow> fl) \<Rightarrow> 'r list \<Rightarrow> ('k \<times> fl) list" where
  "groupby_sum key val rs =
     map (\<lambda>k. (k, fsum_skipna (map val (filter (\<lambda>r. key r = k) rs)))) (group_keys key rs)"

text \<open>\<^verbatim>\<open>df[df[col].isin(values)]\<close>.\<close>

definition isin_rows :: "('r \<Rightarrow> 'k) \<Rightarrow> 'k list \<Rightarrow> 'r list \<Rightarrow> 'r list" where
  "isin_rows col vals rs = filter (\<lambda>r. col r \<in> set vals) rs"

text \<open>
  A two-dimensional result: row labels, column labels and one list of cells per row label.
  \<^verbatim>\<open>unstack(fill_value=...)\<close> turns a series keyed by pairs into such a frame, with the
  fill value where a pair has no entry.
\<close>

record ('r, 'c, 'v) frame =
  index :: "'r list"
  columns :: "'c list"
  cells :: "'v list list"

definition unstack ::
  "'v \<Rightarrow> (('r::linorder \<times> 'c::linorder) \<times> 'v) list \<Rightarrow> ('r, 'c, 'v) frame" where
  "unstack fill_value s =
     (let rs = sort (remdups (map (\<lambda>e. fst (fst e)) s));
          cs = sort (remdups (map (\<lambda>e. snd (fst e)) s))
      in \<lparr>index = rs, columns = cs,
          cells = map (\<lambda>r. map (\<lambda>c. case map_of s (r, c) of
                                         None \<Rightarrow> fill_value
                                       | Some v \<Rightarrow> v) cs) rs\<rparr>)"

text \<open>\<^verbatim>\<open>shift(n)\<close> moves every column down by \<open>n\<close> rows; the rows that have no
  predecessor hold NaN.\<close>

definition shift :: "nat \<Rightarrow> nat \<Rightarrow> fl list list \<Rightarrow> fl list list" where
  "shift n width cs =
     replicate (min n (length cs)) (replicate width NaN) @ take (length cs - n) cs"

text \<open>\<^verbatim>\<open>pct_change(n)\<close> is \<^verbatim>\<open>data / data.shift(n) - 1\<close>, cell by cell.\<close>

definition pct_change :: "nat \<Rightarrow> ('r, 'c, fl) frame \<Rightarrow> ('r, 'c, fl) frame" where
  "pct_change n fr =
     (let cur = cells fr;
          prev = shift n (length (columns fr)) cur
      in \<lparr>index = index fr, columns = columns fr,
          cells = map2 (map2 (\<lambda>a b. fsub (fdiv a b) (Fin 1))) cur prev\<rparr>)"

text \<open>\<^verbatim>\<open>fr.sum(axis=1)\<close>: the total of each row, NaN cells left out.\<close>

definition sum_axis1 :: "('r, 'c, fl) frame \<Rightarrow> fl list" where
  "sum_axis1 fr = map fsum_skipna (cells fr)"

text \<open>\<^verbatim>\<open>fr.div(fr.sum(axis=1), axis=0)\<close>: every cell over the total of its row.\<close>

definition div_by_row_sum :: "('r, 'c, fl) frame \<Rightarrow> ('r, 'c, fl) frame" where
  "div_by_row_sum fr =
     \<lparr>index = index fr, columns = columns fr,
      cells = map2 (\<lambda>cs total. map (\<lambda>c. fdiv c total) cs) (cells fr) (sum_axis1 fr)\<rparr>"

text \<open>\<^verbatim>\<open>style.format("{:.1%}", na_rep='-')\<close> shows a NaN cell as the gap sign and any
  other cell as a percentage.\<close>

datatype shown = Gap | Percent fl

definition style_format :: "('r, 'c, fl) frame \<Rightarrow> ('r, 'c, shown) frame" where
  "style_format fr =
     \<lparr>index = index fr, columns = columns fr,
      cells = map (map (\<lambda>v. if v = NaN then Gap else Percent v)) (cells fr)\<rparr>"

subsection \<open>load_data_local\<close>

text \<open>
  What \<^verbatim>\<open>pd.read_excel\<close> finds: no file, a file it cannot read as a workbook, or a
  sheet with its column headers and rows.
\<close>

datatype source = NoSuchFile | Unreadable | Sheet "column list" "xl_cell sheet_row list"

datatype exn = FileNotFoundError | Exception

datatype notice = Error_file_not_found | Error_processing | Warning_empty_table

text \<open>The columns that the body of \<open>load_data_local\<close> reads, in the order of their
  first use (lines 23, 29 to 31 and 39). A missing one raises \<^verbatim>\<open>KeyError\<close> there.\<close>

definition load_columns :: "column list" where
  "load_columns =
     [Col_Date, Col_Amount, Col_Sales, Col_Price, Col_Rate, Col_Unit_Count, Col_ASIN]"

text \<open>One row of the enriched table, from the sheet row, its parsed date, the number of
  distinct months of the whole sheet and the table of counts per ASIN.\<close>

definition enrich ::
  "nat \<Rightarrow> (string \<times> nat) list \<Rightarrow> xl_cell sheet_row \<Rightarrow> nat \<times> nat \<Rightarrow> row" where
  "enrich total_months_in_dataset asin_counts r ym =
     (let amount = to_numeric_fillna (Amount r);
          sales = to_numeric_fillna (Sales r);
          price = to_numeric_fillna (Price r);
          rate = to_numeric_fillna (Rate r);
          unit_count = to_numeric_fillna (Unit_Count r)
      in \<lparr>Date = Date r, ASIN = ASIN r, Brand = Brand r,
          Amount = amount, Sales = sales, Price = price, Rate = rate,
          Unit_Count = unit_count,
          Price_Tier = Price_Tier r, Ink_Color = Ink_Color r,
          Date_Obj = ym,
          Date_Str = month_label ym,
          Quarter = quarter_label ym,
          Year = fst ym,
          ASP = fdiv amount sales,
          Unit_Price = fdiv price unit_count,
          months_listed = map_of asin_counts (ASIN r),
          stability_score =
            (case map_of asin_counts (ASIN r) of
               None \<Rightarrow> NaN
             | Some n \<Rightarrow> fdiv (Fin (of_nat n)) (Fin (of_nat total_months_in_dataset)))\<rparr>)"

text \<open>The body of the \<^verbatim>\<open>try\<close> block: \<open>Inl\<close> is the exception it raises.\<close>

definition try_body :: "source \<Rightarrow> exn + (row list \<times> nat)" where
  "try_body src =
     (case src of
        NoSuchFile \<Rightarrow> Inl FileNotFoundError
      | Unreadable \<Rightarrow> Inl Exception
      | Sheet header rs \<Rightarrow>
          if \<not> list_all (\<lambda>c. c \<in> set header) load_columns then Inl Exception
          else
            (case those (map (\<lambda>r. to_datetime (Date r)) rs) of
               None \<Rightarrow> Inl Exception
             | Some date_objs \<Rightarrow>
                 (let total_months_in_dataset = nunique (map Date rs);
                      asin_counts = groupby_count ASIN rs
                  in Inr (map2 (enrich total_months_in_dataset asin_counts) rs date_objs,
                          total_months_in_dataset))))"

text \<open>The function returns the table and the number of months, and shows an error
  message when it caught an exception.\<close>

definition load_data_local :: "source \<Rightarrow> (row list \<times> nat) \<times> notice list" where
  "load_data_local src =
     (case try_body src of
        Inr res \<Rightarrow> (res, [])
      | Inl FileNotFoundError \<Rightarrow> (([], 0), [Error_file_not_found])
      | Inl Exception \<Rightarrow> (([], 0), [Error_processing]))"

subsection \<open>The views\<close>

text \<open>The brand filter of the sidebar.\<close>

definition df_filtered :: "string list \<Rightarrow> row list \<Rightarrow> row list" where
  "df_filtered selected_brands df = isin_rows Brand selected_brands df"

text \<open>Tab 1, first chart: monthly amount per brand.\<close>

definition monthly_sales :: "row list \<Rightarrow> ((string \<times> string) \<times> fl) list" where
  "monthly_sales rs = groupby_sum (\<lambda>r. (Date_Str r, Brand r)) Amount rs"

text \<open>Tab 2: the quarter by brand and year by brand matrices of summed amounts.\<close>

definition q_data :: "row list \<Rightarrow> (string, string, fl) frame" where
  "q_data rs = unstack (Fin 0) (groupby_sum (\<lambda>r. (Quarter r, Brand r)) Amount rs)"

definition y_data :: "row list \<Rightarrow> (nat, string, fl) frame" where
  "y_data rs = unstack (Fin 0) (groupby_sum (\<lambda>r. (Year r, Brand r)) Amount rs)"

text \<open>Tab 3: amount per quarter and price tier.\<close>

definition price_q :: "row list \<Rightarrow> ((string \<times> string) \<times> fl) list" where
  "price_q rs = groupby_sum (\<lambda>r. (Quarter r, Price_Tier r)) Amount rs"

text \<open>Tab 4, last chart: the colour classifier and the monthly amount per class.\<close>

definition Color_Type :: "cell \<Rightarrow> string" where
  "Color_Type x =
     (if list_ex (\<lambda>c. py_in c (py_str x))
           [''White'', ''Black'', ''Gold'', ''Silver'', ''Metallic'']
      then ''Independent'' else ''Assorted'')"

definition c_trend :: "row list \<Rightarrow> ((string \<times> string) \<times> fl) list" where
  "c_trend rs = groupby_sum (\<lambda>r. (Date_Str r, Color_Type (Ink_Color r))) Amount rs"

subsection \<open>The script\<close>

text \<open>
  The charts and tables of the four tabs, in the order the script shows them.
\<close>

datatype element =
    Area_monthly_sales | Bar_year_ink | Line_avg_metrics
  | Table_yoy | Table_quarter_share | Table_year_share
  | Scatter_stability | Table_top20 | Table_at_risk
  | Bar_price_q | Table_price_tbl
  | Sunburst_packaging | Box_price | Treemap_nib | Violin_unit_price | Line_c_trend

text \<open>
  After the load the script runs top to bottom. Each step reads some columns of the
  sheet and, when it finds them, shows its elements: line 66 (the brand list), lines 80,
  88 and 93 (tab 1), lines 103 to 109 and 118 to 141 (tab 2), lines 146 and 149 (tab 3),
  lines 158 to 169 and line 172 (tab 4). A column that is missing raises an error that
  nothing catches: the run ends there, with the elements shown so far on the page.
\<close>

definition script_steps :: "(column list \<times> element list) list" where
  "script_steps =
     [([Col_Brand], []),
      ([Col_Brand, Col_Amount], [Area_monthly_sales]),
      ([Col_Ink_Delivery, Col_Amount], [Bar_year_ink]),
      ([Col_Brand, Col_Price, Col_Rate, Col_Sales], [Line_avg_metrics]),
      ([Col_Brand, Col_Amount], [Table_yoy, Table_quarter_share, Table_year_share]),
      ([Col_ASIN, Col_Brand, Col_Dual_Tip, Col_Ink_Delivery, Col_Unit_Count, Col_Nib_Type],
         [Scatter_stability, Table_top20, Table_at_risk]),
      ([Col_Price_Tier, Col_Amount], [Bar_price_q, Table_price_tbl]),
      ([Col_Packaging, Col_Unit_Count, Col_Amount], [Sunburst_packaging]),
      ([Col_Ink_Delivery, Col_Price], [Box_price]),
      ([Col_Nib_Type, Col_Line_Width, Col_Amount], [Treemap_nib]),
      ([Col_Brand], [Violin_unit_price]),
      ([Col_Ink_Color], [Line_c_trend])]"

text \<open>Running the steps on a sheet with the given header: the elements shown, and the
  column whose absence ended the run, if any.\<close>

fun run_steps ::
  "column list \<Rightarrow> (column list \<times> element list) list \<Rightarrow> element list
     \<Rightarrow> element list \<times> column option" where
  "run_steps header [] shown = (shown, None)"
| "run_steps header ((needed, elements) # steps) shown =
     (case find (\<lambda>c. c \<notin> set header) needed of
        Some c \<Rightarrow> (shown, Some c)
      | None \<Rightarrow> run_steps header steps (shown @ elements))"

text \<open>
  What a complete run shows, for the views whose content is modelled. Each field is named
  after the variable or the tab it comes from; the table each view is computed from
  (\<open>df\<close> or the filtered rows) is the one the script passes.
\<close>

record dashboard =
  total_periods :: nat
  all_brands :: "string list"
  tab1_monthly_sales :: "((string \<times> string) \<times> fl) list"
  tab2_yoy :: "(string, string, shown) frame"
  tab2_quarter_share :: "(string, string, shown) frame"
  tab2_year_share :: "(nat, string, shown) frame"
  tab3_price_q :: "((string \<times> string) \<times> fl) list"
  tab4_c_trend :: "((string \<times> string) \<times> fl) list"

text \<open>
  A session ends in one of three ways: stopped by \<^verbatim>\<open>st.stop()\<close> with nothing but
  messages, rendered in full, or broken off by a missing column after the listed
  elements were shown.
\<close>

datatype session =
    Stopped "notice list"
  | Rendered "notice list" dashboard
  | Broken_off "notice list" "element list" column

definition header_of :: "source \<Rightarrow> column list" where
  "header_of src = (case src of Sheet header rs \<Rightarrow> header | _ \<Rightarrow> [])"

text \<open>The second argument is the choice made in the brand multiselect.\<close>

definition script :: "source \<Rightarrow> string list \<Rightarrow> session" where
  "script src selected_brands =
     (case load_data_local src of
        ((df, periods), notices) \<Rightarrow>
          if df = [] then Stopped (notices @ [Warning_empty_table])
          else
            (case run_steps (header_of src) script_steps [] of
               (shown, Some c) \<Rightarrow> Broken_off notices shown c
             | (shown, None) \<Rightarrow>
                 (let filtered = df_filtered selected_brands df
                  in Rendered notices
                       \<lparr>total_periods = periods,
                        all_brands = sort (remdups (map Brand df)),
                        tab1_monthly_sales = monthly_sales filtered,
                        tab2_yoy = style_format (pct_change 4 (q_data df)),
                        tab2_quarter_share = style_format (div_by_row_sum (q_data df)),
                        tab2_year_share = style_format (div_by_row_sum (y_data df)),
                        tab3_price_q = price_q df,
                        tab4_c_trend = c_trend df\<rparr>)))"

subsection \<open>Sample sheets\<close>

definition all_columns :: "column list" where
  "all_columns =
     [Col_Date, Col_ASIN, Col_Brand, Col_Amount, Col_Sales, Col_Price, Col_Rate,
      Col_Unit_Count, Col_Price_Tier, Col_Ink_Color, Col_Ink_Delivery, Col_Dual_Tip,
      Col_Nib_Type, Col_Packaging, Col_Line_Width]"

text \<open>A sheet row with the given month, ASIN, brand, amount and units sold, and fixed
  values in the other columns; the concrete instances below are built from it.\<close>

definition sample_row ::
  "nat \<Rightarrow> string \<Rightarrow> string \<Rightarrow> rat \<Rightarrow> rat \<Rightarrow> xl_cell sheet_row" where
  "sample_row d a b amount sales =
     \<lparr>Date = d, ASIN = a, Brand = b, Amount = Num amount, Sales = Num sales,
      Price = Num 10, Rate = Num 4, Unit_Count = Num 12,
      Price_Tier = ''10-20'', Ink_Color = CStr ''Black''\<rparr>"

text \<open>Two rows of one month, brand X with amount 10 and brand Y with amount 20.\<close>

definition two_brand_sheet :: source where
  "two_brand_sheet =
     Sheet all_columns
       [sample_row 202301 ''A1'' ''X'' 10 1, sample_row 202301 ''B1'' ''Y'' 20 2]"

text \<open>One row whose amount cell holds the text of an infinity.\<close>

definition infinite_amount_sheet :: source where
  "infinite_amount_sheet =
     Sheet all_columns [(sample_row 202301 ''A1'' ''X'' 0 1)\<lparr>Amount := Inf_text\<rparr>]"

text \<open>Two rows of one month whose amounts are finite but add up to more than float64
  holds.\<close>

definition overflow_sheet :: source where
  "overflow_sheet =
     Sheet all_columns
       [sample_row 202301 ''A1'' ''X'' (10 ^ 308) 1, sample_row 202301 ''B1'' ''Y'' (10 ^ 308) 1]"

section \<open>Properties\<close>

subsection \<open>Arithmetic of the float model\<close>

lemma overflow_bound_large: "1000000 < overflow_bound"
proof -
  have "(2::rat) ^ 1024 = 2 ^ 54 * 2 ^ 970" by (simp flip: power_add)
  then have "overflow_bound = (2 ^ 54 - 1) * 2 ^ 970"
    by (simp add: overflow_bound_def algebra_simps)
  moreover have "(1::rat) \<le> 2 ^ 970" by simp
  moreover have "(1000000::rat) < 2 ^ 54 - 1" by simp
  ultimately show ?thesis
    by (metis less_le_trans mult.right_neutral mult_left_mono less_imp_le zero_less_one
        order.strict_trans less_numeral_extra(1) order_less_le_trans zero_less_numeral)
qed

lemma fin_small: "\<bar>q\<bar> \<le> 1000000 \<Longrightarrow> fin q = Fin q"
  using overflow_bound_large by (auto simp: fin_def)

lemma fin_Fin_iff: "fin q = Fin r \<longleftrightarrow> r = q \<and> - overflow_bound < q \<and> q < overflow_bound"
  by (auto simp: fin_def)

lemma fin_not_NaN [simp]: "fin q \<noteq> NaN"
  by (simp add: fin_def)

lemma fadd_Fin_result:
  "fadd x y = Fin s \<Longrightarrow> \<exists>a b. x = Fin a \<and> y = Fin b \<and> s = a + b"
  by (cases x; cases y) (auto simp: fin_Fin_iff)

lemma foldl_fadd_Fin:
  "foldl fadd v xs = Fin s \<Longrightarrow>
     \<exists>a. v = Fin a \<and> (\<forall>x\<in>set xs. x = Fin (fin_val x)) \<and> s = a + sum_list (map fin_val xs)"
proof (induction xs arbitrary: v)
  case Nil
  then show ?case by simp
next
  case (Cons x xs)
  from Cons.prems have "foldl fadd (fadd v x) xs = Fin s" by simp
  from Cons.IH [OF this] obtain b where b: "fadd v x = Fin b"
    and fin: "\<forall>y\<in>set xs. y = Fin (fin_val y)" and s: "s = b + sum_list (map fin_val xs)"
    by blast
  from fadd_Fin_result [OF b] obtain a c where "v = Fin a" "x = Fin c" "b = a + c" by blast
  with fin s show ?case by simp
qed

lemma fsum_Fin:
  assumes "fsum xs = Fin s"
  shows "\<forall>x\<in>set xs. x = Fin (fin_val x)" and "s = sum_list (map fin_val xs)"
  using foldl_fadd_Fin [of "Fin 0" xs s] assms by (auto simp: fsum_def)

lemma sum_fin_val_skipna:
  "sum_list (map fin_val (filter (\<lambda>v. v \<noteq> NaN) xs)) = sum_list (map fin_val xs)"
  by (induction xs) auto

lemma fsum_skipna_Fin:
  assumes "fsum_skipna xs = Fin s"
  shows "\<forall>x\<in>set xs. x = NaN \<or> x = Fin (fin_val x)" and "s = sum_list (map fin_val xs)"
proof -
  note f = fsum_Fin [OF assms [unfolded fsum_skipna_def]]
  from f(1) show "\<forall>x\<in>set xs. x = NaN \<or> x = Fin (fin_val x)" by auto
  from f(2) show "s = sum_list (map fin_val xs)" by (simp add: sum_fin_val_skipna)
qed

lemma foldl_fadd_nonneg:
  "0 \<le> a \<Longrightarrow> \<forall>v\<in>set vs. 0 \<le> v \<Longrightarrow> a + sum_list vs < overflow_bound \<Longrightarrow>
     foldl fadd (Fin a) (map Fin vs) = Fin (a + sum_list vs)"
proof (induction vs arbitrary: a)
  case Nil
  then show ?case by simp
next
  case (Cons v vs)
  from Cons.prems have v: "0 \<le> v" and vs: "\<forall>w\<in>set vs. 0 \<le> w" by simp_all
  from vs have "0 \<le> sum_list vs" by (simp add: sum_list_nonneg)
  with Cons.prems v have "a + v < overflow_bound" "0 \<le> a + v" by simp_all
  moreover from overflow_bound_large have "0 < overflow_bound" by simp
  ultimately have "fin (a + v) = Fin (a + v)" by (simp add: fin_Fin_iff)
  moreover from Cons.prems have "a + v + sum_list vs < overflow_bound" by (simp add: add.assoc)
  ultimately show ?case
    using Cons.IH [OF \<open>0 \<le> a + v\<close> vs] by (simp add: add.assoc)
qed

lemma fsum_skipna_Fins: "fsum_skipna (map Fin vs) = fsum (map Fin vs)"
  by (simp add: fsum_skipna_def)

lemma fsum_nonneg:
  "\<forall>v\<in>set vs. 0 \<le> v \<Longrightarrow> sum_list vs < overflow_bound \<Longrightarrow>
     fsum (map Fin vs) = Fin (sum_list vs)"
  using foldl_fadd_nonneg [of 0 vs] by (simp add: fsum_def)
subsection \<open>Auxiliary facts about the load step\<close>

lemma those_map_Some:
  "those (map f xs) = Some ys \<Longrightarrow> list_all2 (\<lambda>x y. f x = Some y) xs ys"
  by (induction xs arbitrary: ys) (auto split: option.splits)

lemma those_map_None: "those (map f xs) = None \<longleftrightarrow> (\<exists>x\<in>set xs. f x = None)"
  by (induction xs) (auto split: option.splits)

lemma try_body_Sheet:
  "try_body (Sheet h rs) =
     (if \<not> list_all (\<lambda>c. c \<in> set h) load_columns then Inl Exception
      else case those (map (\<lambda>r. to_datetime (Date r)) rs) of
        None \<Rightarrow> Inl Exception
      | Some ds \<Rightarrow> Inr (map2 (enrich (nunique (map Date rs)) (groupby_count ASIN rs)) rs ds,
                        nunique (map Date rs)))"
  unfolding try_body_def Let_def by simp

lemma all_columns_load [simp]: "list_all (\<lambda>c. c \<in> set all_columns) load_columns"
  by (simp add: all_columns_def load_columns_def)

lemma try_body_Sheet_Inr_ex:
  assumes "try_body (Sheet h rs) = Inr (df, t)"
  shows "\<exists>ds. those (map (\<lambda>r. to_datetime (Date r)) rs) = Some ds \<and>
     df = map2 (enrich (nunique (map Date rs)) (groupby_count ASIN rs)) rs ds \<and>
     t = nunique (map Date rs)"
proof (cases "list_all (\<lambda>c. c \<in> set h) load_columns")
  case False
  with assms show ?thesis by (simp add: try_body_Sheet)
next
  case cols: True
  show ?thesis
  proof (cases "those (map (\<lambda>r. to_datetime (Date r)) rs)")
    case None
    with assms cols show ?thesis by (simp add: try_body_Sheet)
  next
    case (Some ds)
    from assms have "Inr (map2 (enrich (nunique (map Date rs)) (groupby_count ASIN rs)) rs ds,
        nunique (map Date rs)) = (Inr (df, t) :: exn + (row list \<times> nat))"
      unfolding try_body_Sheet Some option.case
      by (simp only: cols not_True_eq_False if_False)
    note eq = this [unfolded sum.inject prod.inject]
    from eq [THEN conjunct1] eq [THEN conjunct2] Some show ?thesis by blast
  qed
qed

lemma map2_enrich_all2:
  "list_all2 (\<lambda>r y. f r = Some y) rs ds \<Longrightarrow>
   list_all2 (\<lambda>r e. \<exists>ym. f r = Some ym \<and> e = g r ym) rs (map2 g rs ds)"
  by (induction rule: list_all2_induct) simp_all

lemma try_body_Sheet_Inr:
  assumes "try_body (Sheet h rs) = Inr (df, t)"
  shows "t = nunique (map Date rs)"
    and "list_all2 (\<lambda>r e. \<exists>ym. to_datetime (Date r) = Some ym \<and>
            e = enrich (nunique (map Date rs)) (groupby_count ASIN rs) r ym) rs df"
proof -
  from try_body_Sheet_Inr_ex [OF assms]
  obtain ds where ds: "those (map (\<lambda>r. to_datetime (Date r)) rs) = Some ds"
    and df: "df = map2 (enrich (nunique (map Date rs)) (groupby_count ASIN rs)) rs ds"
    and t: "t = nunique (map Date rs)"
    by blast
  show "t = nunique (map Date rs)" by (rule t)
  from those_map_Some [OF ds]
  have "list_all2 (\<lambda>r y. to_datetime (Date r) = Some y) rs ds" .
  from map2_enrich_all2 [OF this]
  show "list_all2 (\<lambda>r e. \<exists>ym. to_datetime (Date r) = Some ym \<and>
            e = enrich (nunique (map Date rs)) (groupby_count ASIN rs) r ym) rs df"
    unfolding df .
qed

lemma set_group_keys: "set (group_keys key rs) = key ` set rs"
  by (simp add: group_keys_def)

lemma distinct_group_keys: "distinct (group_keys key rs)"
  by (simp add: group_keys_def)

lemma map_of_groupby_count:
  "map_of (groupby_count key rs) k =
     (if k \<in> key ` set rs then Some (length (filter (\<lambda>r. key r = k) rs)) else None)"
  by (simp add: groupby_count_def map_of_map_restrict restrict_map_def set_group_keys)

lemma map_of_groupby_sum:
  "map_of (groupby_sum key val rs) k =
     (if k \<in> key ` set rs
      then Some (fsum_skipna (map val (filter (\<lambda>r. key r = k) rs)))
      else None)"
  by (simp add: groupby_sum_def map_of_map_restrict restrict_map_def set_group_keys)

lemma try_body_Sheet_Inl:
  "try_body (Sheet h rs) = Inl x \<longleftrightarrow>
     x = Exception \<and>
     (\<not> list_all (\<lambda>c. c \<in> set h) load_columns \<or> (\<exists>r\<in>set rs. to_datetime (Date r) = None))"
proof (cases "list_all (\<lambda>c. c \<in> set h) load_columns")
  case False
  then show ?thesis by (auto simp: try_body_Sheet)
next
  case cols: True
  show ?thesis
  proof (cases "those (map (\<lambda>r. to_datetime (Date r)) rs)")
    case None
    then have "\<exists>r\<in>set rs. to_datetime (Date r) = None" by (simp add: those_map_None)
    with None cols show ?thesis by (auto simp: try_body_Sheet)
  next
    case (Some ds)
    then have "\<not> (\<exists>r\<in>set rs. to_datetime (Date r) = None)"
      using those_map_None [of "\<lambda>r. to_datetime (Date r)" rs] by simp
    with Some cols show ?thesis by (simp add: try_body_Sheet)
  qed
qed

lemma try_body_not_Sheet:
  "try_body NoSuchFile = Inl FileNotFoundError" "try_body Unreadable = Inl Exception"
  by (simp_all add: try_body_def)

lemma load_Sheet_rows:
  assumes "e \<in> set (fst (fst (load_data_local (Sheet h rs))))"
  shows "\<exists>r\<in>set rs. \<exists>ym. to_datetime (Date r) = Some ym \<and>
            e = enrich (nunique (map Date rs)) (groupby_count ASIN rs) r ym"
proof (cases "try_body (Sheet h rs)")
  case (Inl x)
  with assms show ?thesis by (cases x) (simp_all add: load_data_local_def)
next
  case (Inr p)
  obtain df t where p: "p = (df, t)" by (cases p)
  with Inr assms have "e \<in> set df" by (simp add: load_data_local_def)
  then obtain i where i: "i < length df" "df ! i = e" by (auto simp: in_set_conv_nth)
  note all = try_body_Sheet_Inr(2) [OF Inr [unfolded p]]
  from all have len: "length rs = length df" by (rule list_all2_lengthD)
  from list_all2_nthD2 [OF all i(1)] i(2)
  have "\<exists>ym. to_datetime (Date (rs ! i)) = Some ym \<and>
            e = enrich (nunique (map Date rs)) (groupby_count ASIN rs) (rs ! i) ym" by simp
  moreover from i(1) len have "rs ! i \<in> set rs" by simp
  ultimately show ?thesis by blast
qed

lemma load_rows:
  assumes "e \<in> set (fst (fst (load_data_local src)))"
  shows "\<exists>h rs. src = Sheet h rs \<and> (\<exists>r\<in>set rs. \<exists>ym. to_datetime (Date r) = Some ym \<and>
            e = enrich (nunique (map Date rs)) (groupby_count ASIN rs) r ym)"
proof (cases src)
  case (Sheet h rs)
  with load_Sheet_rows [of e h rs] assms show ?thesis by simp
qed (use assms in \<open>simp_all add: load_data_local_def try_body_not_Sheet\<close>)

lemma load_Sheet_ok:
  assumes "list_all (\<lambda>c. c \<in> set h) load_columns"
    and "\<forall>r\<in>set rs. to_datetime (Date r) \<noteq> None"
  shows "\<exists>df. load_data_local (Sheet h rs) = ((df, nunique (map Date rs)), []) \<and>
           length df = length rs"
proof (cases "try_body (Sheet h rs)")
  case (Inl x)
  with assms show ?thesis by (auto simp: try_body_Sheet_Inl)
next
  case (Inr p)
  obtain df t where p: "p = (df, t)" by (cases p)
  from try_body_Sheet_Inr [OF Inr [unfolded p]]
  have "t = nunique (map Date rs)" "length rs = length df"
    by (auto dest: list_all2_lengthD)
  with Inr p show ?thesis by (simp add: load_data_local_def)
qed

lemma enrich_fields [simp]:
  "Date (enrich t c r ym) = Date r"
  "ASIN (enrich t c r ym) = ASIN r"
  "Brand (enrich t c r ym) = Brand r"
  "Amount (enrich t c r ym) = to_numeric_fillna (Amount r)"
  "Sales (enrich t c r ym) = to_numeric_fillna (Sales r)"
  "Price (enrich t c r ym) = to_numeric_fillna (Price r)"
  "Unit_Count (enrich t c r ym) = to_numeric_fillna (Unit_Count r)"
  "Price_Tier (enrich t c r ym) = Price_Tier r"
  "Ink_Color (enrich t c r ym) = Ink_Color r"
  "Date_Str (enrich t c r ym) = month_label ym"
  "Quarter (enrich t c r ym) = quarter_label ym"
  "Year (enrich t c r ym) = fst ym"
  "ASP (enrich t c r ym) = fdiv (to_numeric_fillna (Amount r)) (to_numeric_fillna (Sales r))"
  "Unit_Price (enrich t c r ym) =
     fdiv (to_numeric_fillna (Price r)) (to_numeric_fillna (Unit_Count r))"
  "months_listed (enrich t c r ym) = map_of c (ASIN r)"
  "stability_score (enrich t c r ym) =
     (case map_of c (ASIN r) of None \<Rightarrow> NaN
      | Some n \<Rightarrow> fdiv (Fin (of_nat n)) (Fin (of_nat t)))"
  by (simp_all add: enrich_def Let_def)

lemma sample_row_fields [simp]:
  "Date (sample_row d a b amount sales) = d"
  "ASIN (sample_row d a b amount sales) = a"
  "Brand (sample_row d a b amount sales) = b"
  "Amount (sample_row d a b amount sales) = Num amount"
  "Sales (sample_row d a b amount sales) = Num sales"
  "Price (sample_row d a b amount sales) = Num 10"
  "Unit_Count (sample_row d a b amount sales) = Num 12"
  "Price_Tier (sample_row d a b amount sales) = ''10-20''"
  "Ink_Color (sample_row d a b amount sales) = CStr ''Black''"
  by (simp_all add: sample_row_def)

lemma to_numeric_fillna_Num: "\<bar>q\<bar> \<le> 1000000 \<Longrightarrow> to_numeric_fillna (Num q) = Fin q"
  by (simp add: to_numeric_fillna_def fillna0_def fin_small)

lemma to_numeric_fillna_not_NaN [simp]: "to_numeric_fillna c \<noteq> NaN"
  by (cases c) (simp_all add: to_numeric_fillna_def fillna0_def)

lemma to_datetime_202301: "to_datetime 202301 = Some (2023, 1)"
  by (simp add: to_datetime_def)

lemma sample_dates_parse:
  "to_datetime 202302 = Some (2023, 2)" "to_datetime 202313 = None"
  by (simp_all add: to_datetime_def)

subsection \<open>Ratios with a zero divisor\<close>

lemma ratio_fields:
  assumes "e \<in> set (fst (fst (load_data_local src)))"
  shows "ASP e = fdiv (Amount e) (Sales e)"
    and "Unit_Price e = fdiv (Price e) (Unit_Count e)"
    and "Amount e \<noteq> NaN" and "Price e \<noteq> NaN"
  using load_rows [OF assms] by auto

lemma fdiv_by_zero:
  "n \<noteq> NaN \<Longrightarrow>
     fdiv n (Fin 0) =
       (case n of Fin a \<Rightarrow> (if 0 < a then PInf else if a < 0 then NInf else NaN)
        | PInf \<Rightarrow> PInf | NInf \<Rightarrow> NInf | NaN \<Rightarrow> NaN)"
  by (cases n) simp_all



subsection \<open>Months listed and stability score\<close>

text \<open>What the merge attaches to a row of the loaded table: the number of rows of the
  sheet that carry the row's ASIN, and that number over the number of distinct months.\<close>

lemma months_listed_loaded:
  assumes "e \<in> set (fst (fst (load_data_local (Sheet h rs))))"
  shows "months_listed e = Some (length (filter (\<lambda>r. ASIN r = ASIN e) rs))"
    and "stability_score e =
           fdiv (Fin (of_nat (length (filter (\<lambda>r. ASIN r = ASIN e) rs))))
                (Fin (of_nat (nunique (map Date rs))))"
proof -
  from load_Sheet_rows [OF assms] obtain r ym where r: "r \<in> set rs"
    and e: "e = enrich (nunique (map Date rs)) (groupby_count ASIN rs) r ym" by blast
  from r have "ASIN r \<in> ASIN ` set rs" by simp
  then have m: "map_of (groupby_count ASIN rs) (ASIN r) =
      Some (length (filter (\<lambda>x. ASIN x = ASIN r) rs))"
    by (simp add: map_of_groupby_count)
  show "months_listed e = Some (length (filter (\<lambda>r. ASIN r = ASIN e) rs))"
    unfolding e by (simp add: m)
  show "stability_score e =
           fdiv (Fin (of_nat (length (filter (\<lambda>r. ASIN r = ASIN e) rs))))
                (Fin (of_nat (nunique (map Date rs))))"
    unfolding e by (simp add: m)
qed

text \<open>On a sheet with at most one row per ASIN and month the row count is the number of
  distinct months of the ASIN, and it does not exceed the number of months of the sheet.\<close>

lemma distinct_map_filter_key:
  "distinct (map (\<lambda>r. (f r, g r)) rs) \<Longrightarrow> distinct (map g (filter (\<lambda>r. f r = a) rs))"
  by (induction rs) (auto simp: image_iff)

lemma row_count_is_month_count:
  assumes "distinct (map (\<lambda>r. (ASIN r, Date r)) rs)"
  shows "length (filter (\<lambda>r. ASIN r = a) rs) = nunique (map Date (filter (\<lambda>r. ASIN r = a) rs))"
  using distinct_map_filter_key [OF assms, of a] by (simp add: nunique_def distinct_remdups_id)

lemma nunique_filter_le: "nunique (map f (filter P rs)) \<le> nunique (map f rs)"
proof -
  have "card (f ` set (filter P rs)) \<le> card (f ` set rs)"
    by (rule card_mono) auto
  then show ?thesis by (simp add: nunique_def length_remdups_card_conv)
qed

text \<open>
  C1. The count attached to an ASIN is the number of its rows: an ASIN listed twice in the
  one month of the sheet gets 2 months listed, while it appears in 1 distinct month.
\<close>

theorem months_listed_counts_rows:
  "map months_listed (fst (fst (load_data_local
      (Sheet all_columns [sample_row 202301 ''A1'' ''X'' 50 5, sample_row 202301 ''A1'' ''X'' 30 3]))))
     = [Some 2, Some 2]
   \<and> nunique (map Date (filter (\<lambda>r. ASIN r = ''A1'')
        [sample_row 202301 ''A1'' ''X'' 50 5, sample_row 202301 ''A1'' ''X'' 30 3])) = 1"
  by (simp add: load_data_local_def try_body_Sheet to_datetime_202301
        map_of_groupby_count nunique_def fin_small)

text \<open>
  C3. On the same sheet the number of months is 1, so the stability score of both rows
  is 2: above 1, and months listed exceeds the months of the data set.
\<close>

theorem stability_score_above_one:
  "map stability_score (fst (fst (load_data_local
      (Sheet all_columns [sample_row 202301 ''A1'' ''X'' 50 5, sample_row 202301 ''A1'' ''X'' 30 3]))))
     = [Fin 2, Fin 2]
   \<and> snd (fst (load_data_local
      (Sheet all_columns [sample_row 202301 ''A1'' ''X'' 50 5, sample_row 202301 ''A1'' ''X'' 30 3]))) = 1"
  by (simp add: load_data_local_def try_body_Sheet to_datetime_202301
        map_of_groupby_count nunique_def fin_small)

subsection \<open>The brand filter\<close>

text \<open>
  C4. A row that survives the brand filter is a row of the unfiltered table, of a
  selected brand, and its months listed and stability score are the ones computed from
  the whole sheet; the number of months of the data set is that of the whole sheet too.
\<close>

theorem brand_filter_keeps_stability:
  assumes "load_data_local (Sheet h rs) = ((df, t), ns)"
    and "e \<in> set (df_filtered selected_brands df)"
  shows "e \<in> set df \<and> Brand e \<in> set selected_brands \<and>
         months_listed e = Some (length (filter (\<lambda>r. ASIN r = ASIN e) rs)) \<and>
         stability_score e =
           fdiv (Fin (of_nat (length (filter (\<lambda>r. ASIN r = ASIN e) rs))))
                (Fin (of_nat (nunique (map Date rs)))) \<and>
         t = nunique (map Date rs)"
proof -
  from assms(2) have mem: "e \<in> set df" and br: "Brand e \<in> set selected_brands"
    by (simp_all add: df_filtered_def isin_rows_def)
  from mem assms(1) have l: "e \<in> set (fst (fst (load_data_local (Sheet h rs))))" by simp
  have "t = nunique (map Date rs)"
  proof (cases "try_body (Sheet h rs)")
    case (Inl x)
    with assms(1) mem show ?thesis by (cases x) (auto simp: load_data_local_def)
  next
    case (Inr p)
    with assms(1) have "try_body (Sheet h rs) = Inr (df, t)"
      by (simp add: load_data_local_def)
    then show ?thesis by (rule try_body_Sheet_Inr(1))
  qed
  with mem br months_listed_loaded [OF l] show ?thesis by simp
qed

theorem brand_filter_keeps_stability_witness:
  "load_data_local
      (Sheet all_columns [sample_row 202301 ''A1'' ''X'' 50 5, sample_row 202302 ''B1'' ''Y'' 30 3]) =
     (([enrich 2 (groupby_count ASIN
            [sample_row 202301 ''A1'' ''X'' 50 5, sample_row 202302 ''B1'' ''Y'' 30 3])
          (sample_row 202301 ''A1'' ''X'' 50 5) (2023, 1),
        enrich 2 (groupby_count ASIN
            [sample_row 202301 ''A1'' ''X'' 50 5, sample_row 202302 ''B1'' ''Y'' 30 3])
          (sample_row 202302 ''B1'' ''Y'' 30 3) (2023, 2)], 2), [])
   \<and> df_filtered [''X'']
        [enrich 2 (groupby_count ASIN
            [sample_row 202301 ''A1'' ''X'' 50 5, sample_row 202302 ''B1'' ''Y'' 30 3])
          (sample_row 202301 ''A1'' ''X'' 50 5) (2023, 1),
         enrich 2 (groupby_count ASIN
            [sample_row 202301 ''A1'' ''X'' 50 5, sample_row 202302 ''B1'' ''Y'' 30 3])
          (sample_row 202302 ''B1'' ''Y'' 30 3) (2023, 2)]
      = [enrich 2 (groupby_count ASIN
            [sample_row 202301 ''A1'' ''X'' 50 5, sample_row 202302 ''B1'' ''Y'' 30 3])
          (sample_row 202301 ''A1'' ''X'' 50 5) (2023, 1)]
   \<and> months_listed (enrich 2 (groupby_count ASIN
            [sample_row 202301 ''A1'' ''X'' 50 5, sample_row 202302 ''B1'' ''Y'' 30 3])
          (sample_row 202301 ''A1'' ''X'' 50 5) (2023, 1)) = Some 1
   \<and> stability_score (enrich 2 (groupby_count ASIN
            [sample_row 202301 ''A1'' ''X'' 50 5, sample_row 202302 ''B1'' ''Y'' 30 3])
          (sample_row 202301 ''A1'' ''X'' 50 5) (2023, 1)) = Fin (1 / 2)"
proof -
  let ?rs = "[sample_row 202301 ''A1'' ''X'' 50 5, sample_row 202302 ''B1'' ''Y'' 30 3]"
  let ?e1 = "enrich 2 (groupby_count ASIN ?rs) (sample_row 202301 ''A1'' ''X'' 50 5) (2023, 1)"
  let ?e2 = "enrich 2 (groupby_count ASIN ?rs) (sample_row 202302 ''B1'' ''Y'' 30 3) (2023, 2)"
  have n: "nunique [202301, 202302 :: nat] = 2"
    by (simp add: nunique_def)
  have l: "load_data_local (Sheet all_columns ?rs) = (([?e1, ?e2], 2), [])"
    by (simp add: load_data_local_def try_body_Sheet to_datetime_202301 sample_dates_parse n)
  have f: "df_filtered [''X''] [?e1, ?e2] = [?e1]"
    by (simp add: df_filtered_def isin_rows_def)
  have m: "?e1 \<in> set (df_filtered [''X''] [?e1, ?e2])"
    unfolding f by simp
  from brand_filter_keeps_stability [OF l m]
  have "months_listed ?e1 = Some 1 \<and> stability_score ?e1 = Fin (1 / 2)"
    by (simp add: nunique_def fin_small)
  with l f show ?thesis by blast
qed
subsection \<open>The colour classifier\<close>

lemma take_eq_iff_prefix: "take (length c) s = c \<longleftrightarrow> prefix c s"
proof
  assume h: "take (length c) s = c"
  have "prefix (take (length c) s) s" by (rule take_is_prefix)
  then show "prefix c s" unfolding h .
next
  assume "prefix c s"
  then obtain zs where "s = c @ zs" by (auto simp: prefix_def)
  then show "take (length c) s = c" by simp
qed

lemma py_in_iff_sublist: "py_in c s \<longleftrightarrow> sublist c s"
proof (induction s)
  case Nil
  show ?case by simp
next
  case (Cons y ys)
  then show ?case
    by (simp only: py_in.simps take_eq_iff_prefix sublist_Cons_right)
qed

lemma Color_Type_cases:
  "Color_Type x = ''Independent'' \<or> Color_Type x = ''Assorted''"
  by (simp add: Color_Type_def)

text \<open>
  C8. The label is Independent exactly when one of the five colour names occurs in the
  printed value as a contiguous piece, compared character by character (so case counts);
  every other value is labelled Assorted.
\<close>

theorem Color_Type_iff_marker:
  "(Color_Type x = ''Independent'' \<longleftrightarrow>
      (\<exists>m\<in>set [''White'', ''Black'', ''Gold'', ''Silver'', ''Metallic''].
         \<exists>ps ss. py_str x = ps @ m @ ss)) \<and>
   (Color_Type x \<noteq> ''Independent'' \<longrightarrow> Color_Type x = ''Assorted'')"
proof -
  have "Color_Type x = ''Independent'' \<longleftrightarrow>
      (\<exists>m\<in>set [''White'', ''Black'', ''Gold'', ''Silver'', ''Metallic'']. py_in m (py_str x))"
    by (simp add: Color_Type_def)
  then show ?thesis
    using Color_Type_cases [of x] unfolding py_in_iff_sublist sublist_def by blast
qed

theorem Color_Type_iff_marker_witness:
  "(\<exists>m\<in>set [''White'', ''Black'', ''Gold'', ''Silver'', ''Metallic''].
      \<exists>ps ss. py_str (CStr ''Rose Gold 12'') = ps @ m @ ss) \<and>
   Color_Type (CStr ''Rose Gold 12'') = ''Independent'' \<and>
   Color_Type (CStr ''rose gold'') \<noteq> ''Independent'' \<and>
   Color_Type (CStr ''rose gold'') = ''Assorted''"
proof -
  have "py_str (CStr ''Rose Gold 12'') = ''Rose '' @ ''Gold'' @ '' 12''" by simp
  then have "\<exists>ps ss. py_str (CStr ''Rose Gold 12'') = ps @ ''Gold'' @ ss" by blast
  then have ex: "\<exists>m\<in>set [''White'', ''Black'', ''Gold'', ''Silver'', ''Metallic''].
      \<exists>ps ss. py_str (CStr ''Rose Gold 12'') = ps @ m @ ss"
    by (rule rev_bexI [of "''Gold''", rotated]) simp
  have no: "Color_Type (CStr ''rose gold'') \<noteq> ''Independent''"
    by (simp add: Color_Type_def)
  from ex no Color_Type_iff_marker [of "CStr ''Rose Gold 12''"]
    Color_Type_iff_marker [of "CStr ''rose gold''"]
  show ?thesis by blast
qed

text \<open>The printed form of a value that is not a string has only digits, signs, points,
  colons, blanks and the lower-case letters of \<open>nan\<close>, \<open>inf\<close>, \<open>True\<close>, \<open>False\<close> and
  \<open>NaT\<close>: none of the capitals W, B, G, S and M.\<close>

lemma digit_in: "d < 10 \<Longrightarrow> digit d \<in> set ''0123456789''"
  unfolding digit_def by (rule nth_mem) simp

lemma set_single_subset: "x \<in> D \<Longrightarrow> set [x] \<subseteq> D"
  by simp

lemma set_snoc_subset: "set xs \<subseteq> D \<Longrightarrow> x \<in> D \<Longrightarrow> set (xs @ [x]) \<subseteq> D"
  by simp

lemma set_dec: "set (dec n) \<subseteq> set ''0123456789''"
proof (induction n rule: dec.induct)
  case (1 n)
  show ?case
  proof (cases "n < 10")
    case True
    then have eq: "dec n = [digit n]" by (subst dec.simps) simp
    from True have "digit n \<in> set ''0123456789''" by (rule digit_in)
    then show ?thesis unfolding eq by (rule set_single_subset)
  next
    case False
    then have eq: "dec n = dec (n div 10) @ [digit (n mod 10)]" by (subst dec.simps) simp
    have d: "digit (n mod 10) \<in> set ''0123456789''" by (rule digit_in) simp
    from False have "set (dec (n div 10)) \<subseteq> set ''0123456789''" by (rule "1")
    then show ?thesis unfolding eq using d by (rule set_snoc_subset)
  qed
qed

lemma subset_if: "set a \<subseteq> S \<Longrightarrow> set b \<subseteq> S \<Longrightarrow> set (if c then a else b) \<subseteq> S"
  by simp

lemma subset_append: "set a \<subseteq> S \<Longrightarrow> set b \<subseteq> S \<Longrightarrow> set (a @ b) \<subseteq> S"
  by simp

lemma subset_replicate: "c \<in> S \<Longrightarrow> set (replicate j c) \<subseteq> S"
  by (induction j) simp_all

lemma pad_chars:
  assumes "\<And>n. set (dec n) \<subseteq> S" and "CHR ''0'' \<in> S"
  shows "set (pad w n) \<subseteq> S"
  unfolding pad_def by (intro subset_append subset_replicate assms)

lemma float_digits_chars:
  assumes d: "\<And>n. set (dec n) \<subseteq> S"
    and c: "CHR ''0'' \<in> S" "CHR ''.'' \<in> S" "CHR ''e'' \<in> S" "CHR ''-'' \<in> S" "CHR ''+'' \<in> S"
  shows "set (float_digits m k) \<subseteq> S"
proof -
  have t: "set (take i (dec m)) \<subseteq> S" for i
    using set_take_subset [of i "dec m"] d [of m] by (rule subset_trans)
  have r: "set (drop i (dec m)) \<subseteq> S" for i
    using set_drop_subset [of i "dec m"] d [of m] by (rule subset_trans)
  have p: "set (pad w j) \<subseteq> S" for w j
    using d c(1) by (rule pad_chars)
  have z: "set (replicate j CHR ''0'') \<subseteq> S" for j
    using c(1) by (rule subset_replicate)
  show ?thesis
    unfolding float_digits_def Let_def
    by (intro subset_if subset_append t r p z d) (simp_all add: c)
qed

lemma clock_chars:
  assumes d: "\<And>n. set (dec n) \<subseteq> S"
    and c: "CHR ''0'' \<in> S" "CHR ''.'' \<in> S" "CHR '':'' \<in> S"
  shows "set (clock h mi s us) \<subseteq> S"
proof -
  have p: "set (pad w j) \<subseteq> S" for w j
    using d c(1) by (rule pad_chars)
  show ?thesis
    unfolding clock_def
    by (intro subset_if subset_append p) (simp_all add: c)
qed

lemma py_str_chars:
  assumes d: "\<And>n. set (dec n) \<subseteq> S"
    and c: "set ''0.e-+: nainfTrueFalseNaT'' \<subseteq> S"
    and x: "\<And>s. x \<noteq> CStr s"
  shows "set (py_str x) \<subseteq> S"
proof -
  from c have c': "CHR ''0'' \<in> S" "CHR ''.'' \<in> S" "CHR ''e'' \<in> S" "CHR ''-'' \<in> S"
    "CHR ''+'' \<in> S" "CHR '':'' \<in> S" by simp_all
  have p: "set (pad w j) \<subseteq> S" for w j
    using d c'(1) by (rule pad_chars)
  have f: "set (float_digits m k) \<subseteq> S" for m k
    using d c'(1-5) by (rule float_digits_chars)
  have k: "set (clock h mi s us) \<subseteq> S" for h mi s us
    using d c'(1,2,6) by (rule clock_chars)
  show ?thesis
  proof (cases x)
    case (CStr s)
    with x [of s] show ?thesis by simp
  next
    case (CDatetime y mo dd h mi s us)
    have "set (pad 4 y @ ''-'' @ pad 2 mo @ ''-'' @ pad 2 dd @ '' '' @ clock h mi s us) \<subseteq> S"
      by (intro subset_append p k) (use c in simp_all)
    with CDatetime show ?thesis by simp
  qed (use c d f k in simp_all)
qed

lemma py_in_set: "py_in c s \<Longrightarrow> set c \<subseteq> set s"
  unfolding py_in_iff_sublist by (rule set_mono_sublist)

lemma py_in_first_char: "py_in (a # c) s \<Longrightarrow> a \<in> set s"
  using py_in_set [of "a # c" s] by simp

lemma no_marker_in_non_string:
  assumes "\<And>s. x \<noteq> CStr s" and "a \<in> {CHR ''W'', CHR ''B'', CHR ''G'', CHR ''S'', CHR ''M''}"
  shows "\<not> py_in (a # c) (py_str x)"
proof
  let ?S = "- {CHR ''W'', CHR ''B'', CHR ''G'', CHR ''S'', CHR ''M''}"
  assume "py_in (a # c) (py_str x)"
  then have "a \<in> set (py_str x)" by (rule py_in_first_char)
  moreover have "set (py_str x) \<subseteq> ?S"
  proof (rule py_str_chars)
    have "set ''0123456789'' \<subseteq> ?S" by simp
    with set_dec show "set (dec n) \<subseteq> ?S" for n by (rule subset_trans)
    show "set ''0.e-+: nainfTrueFalseNaT'' \<subseteq> ?S" by simp
    show "x \<noteq> CStr s" for s by (rule assms(1))
  qed
  ultimately show False using assms(2) by blast
qed

text \<open>
  C10. A value that is not a string (a missing value, an integer, a float, a truth value,
  a date or a time) is printed before the test; its printed form holds none of the
  colour names, so the label is Assorted. The classifier is a total function: it never
  raises.
\<close>

theorem non_string_is_Assorted:
  assumes "\<And>s. x \<noteq> CStr s"
  shows "Color_Type x = ''Assorted''"
proof -
  have w: "\<not> py_in ''White'' (py_str x)" by (rule no_marker_in_non_string [OF assms]) simp
  have b: "\<not> py_in ''Black'' (py_str x)" by (rule no_marker_in_non_string [OF assms]) simp
  have g: "\<not> py_in ''Gold'' (py_str x)" by (rule no_marker_in_non_string [OF assms]) simp
  have s: "\<not> py_in ''Silver'' (py_str x)" by (rule no_marker_in_non_string [OF assms]) simp
  have m: "\<not> py_in ''Metallic'' (py_str x)" by (rule no_marker_in_non_string [OF assms]) simp
  show ?thesis
    unfolding Color_Type_def
    by (simp only: list_ex_Cons_iff list_ex_Nil_iff w b g s m simp_thms if_False)
qed

lemma replicate_small: "replicate 2 c = [c, c]" "replicate 3 c = [c, c, c]"
  by (simp_all add: numeral_2_eq_2 numeral_3_eq_3)

lemma float_digits_examples:
  "float_digits 5 0 = ''5.0''"
  "float_digits 25 (- 2) = ''0.25''"
  "float_digits 123456 (- 3) = ''123.456''"
  "float_digits 1 (- 4) = ''0.0001''"
  "float_digits 1 (- 5) = ''1e-05''"
  "float_digits 15 15 = ''1.5e+16''"
  "float_digits 1 16 = ''1e+16''"
  "float_digits 1234567890123456 0 = ''1234567890123456.0''"
  "float_digits 0 0 = ''0.0''"
  by (simp_all add: float_digits_def Let_def pad_def dec.simps digit_def replicate_small)

theorem non_string_is_Assorted_witness:
  "(\<forall>s. CFloat False 5 0 \<noteq> CStr s) \<and>
   py_str (CFloat False 5 0) = ''5.0'' \<and> Color_Type (CFloat False 5 0) = ''Assorted'' \<and>
   py_str CNaN = ''nan'' \<and> Color_Type CNaN = ''Assorted'' \<and>
   py_str (CDatetime 2023 1 5 0 0 0 0) = ''2023-01-05 00:00:00'' \<and>
   Color_Type (CDatetime 2023 1 5 0 0 0 0) = ''Assorted''"
proof -
  have a: "CFloat False 5 0 \<noteq> CStr s" for s by simp
  have b: "CNaN \<noteq> CStr s" for s by simp
  have c: "CDatetime 2023 1 5 0 0 0 0 \<noteq> CStr s" for s by simp
  have "py_str (CDatetime 2023 1 5 0 0 0 0) = ''2023-01-05 00:00:00''"
    by (simp add: clock_def pad_def dec.simps digit_def replicate_small)
  with non_string_is_Assorted [OF a] non_string_is_Assorted [OF b]
    non_string_is_Assorted [OF c] a
  show ?thesis by (simp add: float_digits_examples)
qed
subsection \<open>Failure of the load step\<close>

lemma try_body_Inl_iff:
  "try_body src = Inl x \<longleftrightarrow>
     (src = NoSuchFile \<and> x = FileNotFoundError) \<or>
     (src = Unreadable \<and> x = Exception) \<or>
     (\<exists>h rs. src = Sheet h rs \<and> x = Exception \<and>
        (\<not> list_all (\<lambda>c. c \<in> set h) load_columns \<or>
         (\<exists>r\<in>set rs. to_datetime (Date r) = None)))"
  by (cases src) (auto simp: try_body_not_Sheet try_body_Sheet_Inl)

text \<open>
  C9 (as amended). When the body of the \<^verbatim>\<open>try\<close> block raises (the file is missing or
  cannot be read, a column that the load reads is absent, or a date does not parse),
  \<open>load_data_local\<close> returns the empty table and 0 months together with one error
  message, and the script, which calls the load once, stops right after its warning:
  the session shows no view for any brand selection.
\<close>

theorem load_failure_stops_session:
  assumes "try_body src = Inl x"
  shows "load_data_local src =
           (([], 0), [if x = FileNotFoundError then Error_file_not_found else Error_processing])
         \<and> script src selected_brands =
           Stopped [if x = FileNotFoundError then Error_file_not_found else Error_processing,
                    Warning_empty_table]"
proof -
  from assms have l: "load_data_local src =
      (([], 0), [if x = FileNotFoundError then Error_file_not_found else Error_processing])"
    by (cases x) (simp_all add: load_data_local_def)
  then show ?thesis by (simp add: script_def)
qed

theorem load_failure_stops_session_witness:
  "try_body NoSuchFile = Inl FileNotFoundError \<and>
   load_data_local NoSuchFile = (([], 0), [Error_file_not_found]) \<and>
   script NoSuchFile [''X''] = Stopped [Error_file_not_found, Warning_empty_table] \<and>
   try_body (Sheet all_columns [sample_row 202313 ''A1'' ''X'' 50 5]) = Inl Exception \<and>
   script (Sheet all_columns [sample_row 202313 ''A1'' ''X'' 50 5]) [''X'']
     = Stopped [Error_processing, Warning_empty_table] \<and>
   try_body (Sheet (removeAll Col_ASIN all_columns) [sample_row 202301 ''A1'' ''X'' 50 5])
     = Inl Exception \<and>
   script (Sheet (removeAll Col_ASIN all_columns) [sample_row 202301 ''A1'' ''X'' 50 5]) [''X'']
     = Stopped [Error_processing, Warning_empty_table]"
proof -
  have a: "try_body NoSuchFile = Inl FileNotFoundError"
    by (simp add: try_body_not_Sheet)
  have b: "try_body (Sheet all_columns [sample_row 202313 ''A1'' ''X'' 50 5]) = Inl Exception"
    by (simp add: try_body_Sheet_Inl sample_dates_parse)
  have c: "try_body (Sheet (removeAll Col_ASIN all_columns)
      [sample_row 202301 ''A1'' ''X'' 50 5]) = Inl Exception"
    by (simp add: try_body_Sheet_Inl all_columns_def load_columns_def)
  from load_failure_stops_session [OF a, of "[''X'']"]
    load_failure_stops_session [OF b, of "[''X'']"]
    load_failure_stops_session [OF c, of "[''X'']"] a b c
  show ?thesis by simp
qed

text \<open>
  C9 as stated fails for a malformed sheet that lacks only a column the views read. On a
  sheet without the ink colour column the load raises nothing and reports nothing; the
  script shows every element of the four tabs but the last and then breaks off at
  line 172 on the missing column.
\<close>

theorem missing_view_column_counterexample:
  "try_body (Sheet (removeAll Col_Ink_Color all_columns) [sample_row 202301 ''A1'' ''X'' 50 5])
     \<noteq> Inl Exception \<and>
   snd (load_data_local
     (Sheet (removeAll Col_Ink_Color all_columns) [sample_row 202301 ''A1'' ''X'' 50 5])) = [] \<and>
   script (Sheet (removeAll Col_Ink_Color all_columns) [sample_row 202301 ''A1'' ''X'' 50 5])
       [''X''] =
     Broken_off []
       [Area_monthly_sales, Bar_year_ink, Line_avg_metrics,
        Table_yoy, Table_quarter_share, Table_year_share,
        Scatter_stability, Table_top20, Table_at_risk,
        Bar_price_q, Table_price_tbl,
        Sunburst_packaging, Box_price, Treemap_nib, Violin_unit_price]
       Col_Ink_Color"
proof -
  let ?h = "removeAll Col_Ink_Color all_columns"
  let ?src = "Sheet ?h [sample_row 202301 ''A1'' ''X'' 50 5]"
  have cols: "list_all (\<lambda>c. c \<in> set ?h) load_columns"
    by (simp add: all_columns_def load_columns_def)
  have t: "try_body ?src =
      Inr ([enrich 1 (groupby_count ASIN [sample_row 202301 ''A1'' ''X'' 50 5])
             (sample_row 202301 ''A1'' ''X'' 50 5) (2023, 1)], 1)"
    unfolding try_body_Sheet using cols by (simp add: to_datetime_202301 nunique_def)
  have r: "run_steps ?h script_steps [] =
      ([Area_monthly_sales, Bar_year_ink, Line_avg_metrics,
        Table_yoy, Table_quarter_share, Table_year_share,
        Scatter_stability, Table_top20, Table_at_risk,
        Bar_price_q, Table_price_tbl,
        Sunburst_packaging, Box_price, Treemap_nib, Violin_unit_price], Some Col_Ink_Color)"
    by (simp add: script_steps_def all_columns_def)
  show ?thesis
    by (simp add: script_def load_data_local_def t r header_of_def)
qed

subsection \<open>Pivot tables\<close>

lemma unstack_fields:
  "index (unstack f s) = sort (remdups (map (\<lambda>e. fst (fst e)) s))"
  "columns (unstack f s) = sort (remdups (map (\<lambda>e. snd (fst e)) s))"
  "cells (unstack f s) =
     map (\<lambda>r. map (\<lambda>c. case map_of s (r, c) of None \<Rightarrow> f | Some v \<Rightarrow> v)
                 (sort (remdups (map (\<lambda>e. snd (fst e)) s))))
         (sort (remdups (map (\<lambda>e. fst (fst e)) s)))"
  by (simp_all add: unstack_def Let_def)

lemma unstack_shape:
  "length (cells (unstack f s)) = length (index (unstack f s))"
  "i < length (index (unstack f s)) \<Longrightarrow>
     length (cells (unstack f s) ! i) = length (columns (unstack f s))"
  by (simp_all add: unstack_fields)

lemma length_shift: "length (shift n w cs) = length cs"
  by (simp add: shift_def)

lemma shift_first: "i < n \<Longrightarrow> i < length cs \<Longrightarrow> shift n w cs ! i = replicate w NaN"
  by (simp add: shift_def nth_append)

lemma pct_change_fields:
  "index (pct_change n fr) = index fr"
  "columns (pct_change n fr) = columns fr"
  "cells (pct_change n fr) =
     map2 (map2 (\<lambda>a b. fsub (fdiv a b) (Fin 1))) (cells fr)
       (shift n (length (columns fr)) (cells fr))"
  by (simp_all add: pct_change_def Let_def)

lemma fdiv_NaN_right: "fdiv a NaN = NaN"
  by (cases a) simp_all

lemma pct_change_shape:
  "length (cells (pct_change n fr)) = length (cells fr)"
  "i < length (cells fr) \<Longrightarrow> i < n \<Longrightarrow>
     length (cells (pct_change n fr) ! i) = min (length (cells fr ! i)) (length (columns fr))"
  by (simp_all add: pct_change_fields length_shift shift_first)

lemma pct_change_first:
  assumes "i < n" and "i < length (cells fr)"
    and "j < length (cells fr ! i)" and "j < length (columns fr)"
  shows "cells (pct_change n fr) ! i ! j = NaN"
  using assms by (simp add: pct_change_fields length_shift shift_first fsub_def fdiv_NaN_right)

lemma style_format_fields:
  "index (style_format fr) = index fr"
  "columns (style_format fr) = columns fr"
  "cells (style_format fr) = map (map (\<lambda>v. if v = NaN then Gap else Percent v)) (cells fr)"
  by (simp_all add: style_format_def)

text \<open>
  C7. In the year-over-year table (lag 4) every cell of the first four periods exists and
  is NaN, which the table shows as the gap sign, not as a number.
\<close>

theorem yoy_first_periods_are_gaps:
  assumes "i < 4" and "i < length (index (q_data rs))" and "j < length (columns (q_data rs))"
  shows "i < length (cells (pct_change 4 (q_data rs))) \<and>
         j < length (cells (pct_change 4 (q_data rs)) ! i) \<and>
         cells (pct_change 4 (q_data rs)) ! i ! j = NaN \<and>
         cells (pct_change 4 (q_data rs)) ! i ! j \<noteq> Fin 0 \<and>
         cells (style_format (pct_change 4 (q_data rs))) ! i ! j = Gap"
proof -
  let ?fr = "q_data rs"
  from assms(2) have i: "i < length (cells ?fr)"
    by (simp add: q_data_def unstack_shape(1))
  from assms(2) have w: "length (cells ?fr ! i) = length (columns ?fr)"
    unfolding q_data_def by (rule unstack_shape(2))
  with assms(3) have j: "j < length (cells ?fr ! i)" by simp
  have c: "cells (pct_change 4 ?fr) ! i ! j = NaN"
    using assms(1) i j assms(3) by (rule pct_change_first)
  have li: "i < length (cells (pct_change 4 ?fr))"
    using i by (simp add: pct_change_shape(1))
  have lj: "j < length (cells (pct_change 4 ?fr) ! i)"
    using pct_change_shape(2) [OF i assms(1)] w assms(3) by simp
  have "cells (style_format (pct_change 4 ?fr)) ! i ! j = Gap"
    using li lj c by (simp add: style_format_fields)
  with li lj c show ?thesis by simp
qed

theorem yoy_first_periods_are_gaps_witness:
  "(0::nat) < 4 \<and>
   0 < length (index (q_data (fst (fst (load_data_local
         (Sheet all_columns [sample_row 202301 ''A1'' ''X'' 50 5])))))) \<and>
   0 < length (columns (q_data (fst (fst (load_data_local
         (Sheet all_columns [sample_row 202301 ''A1'' ''X'' 50 5])))))) \<and>
   cells (pct_change 4 (q_data (fst (fst (load_data_local
         (Sheet all_columns [sample_row 202301 ''A1'' ''X'' 50 5])))))) ! 0 ! 0 = NaN \<and>
   cells (style_format (pct_change 4 (q_data (fst (fst (load_data_local
         (Sheet all_columns [sample_row 202301 ''A1'' ''X'' 50 5]))))))) ! 0 ! 0 = Gap"
proof -
  let ?rs = "fst (fst (load_data_local (Sheet all_columns [sample_row 202301 ''A1'' ''X'' 50 5])))"
  have i: "0 < length (index (q_data ?rs))"
    by (simp add: load_data_local_def try_body_Sheet to_datetime_202301 q_data_def
          unstack_fields groupby_sum_def group_keys_def)
  have j: "0 < length (columns (q_data ?rs))"
    by (simp add: load_data_local_def try_body_Sheet to_datetime_202301 q_data_def
          unstack_fields groupby_sum_def group_keys_def)
  have l: "(0::nat) < 4" by simp
  from yoy_first_periods_are_gaps [OF l i j] i j show ?thesis by simp
qed

subsection \<open>Sums over groups\<close>

lemma pivot_lookup:
  "(case map_of (groupby_sum key val rs) k of None \<Rightarrow> Fin 0 | Some v \<Rightarrow> v) =
     fsum_skipna (map val (filter (\<lambda>r. key r = k) rs))"
proof (cases "k \<in> key ` set rs")
  case True
  then show ?thesis by (simp add: map_of_groupby_sum)
next
  case False
  then have "filter (\<lambda>r. key r = k) rs = []" by (auto simp: filter_empty_conv)
  with False show ?thesis by (simp add: map_of_groupby_sum fsum_skipna_def fsum_def)
qed

lemma map_fst_groupby_sum: "map fst (groupby_sum key val rs) = group_keys key rs"
  by (simp add: groupby_sum_def comp_def)

lemma sum_list_absent_key:
  "a \<notin> set cs \<Longrightarrow> sum_list (map (\<lambda>c. if a = c then v else 0) cs) = (0 :: rat)"
  by (induction cs) auto

lemma sum_list_single_key:
  "distinct cs \<Longrightarrow> a \<in> set cs \<Longrightarrow>
     sum_list (map (\<lambda>c. if a = c then v else 0) cs) = (v :: rat)"
  by (induction cs) (auto simp: sum_list_absent_key)

lemma sum_list_by_groups:
  fixes f :: "'r \<Rightarrow> rat"
  assumes "distinct cs" and "g ` set xs \<subseteq> set cs"
  shows "sum_list (map (\<lambda>c. sum_list (map f (filter (\<lambda>r. g r = c) xs))) cs)
           = sum_list (map f xs)"
  using assms(2)
proof (induction xs)
  case Nil
  show ?case by simp
next
  case (Cons x xs)
  from Cons.prems have gx: "g x \<in> set cs" and sub: "g ` set xs \<subseteq> set cs" by auto
  have "sum_list (map (\<lambda>c. sum_list (map f (filter (\<lambda>r. g r = c) (x # xs)))) cs)
      = sum_list (map (\<lambda>c. (if g x = c then f x else 0)
            + sum_list (map f (filter (\<lambda>r. g r = c) xs))) cs)"
    by (rule arg_cong [where f = sum_list]) simp
  also have "\<dots> = sum_list (map (\<lambda>c. if g x = c then f x else 0) cs)
      + sum_list (map (\<lambda>c. sum_list (map f (filter (\<lambda>r. g r = c) xs))) cs)"
    by (rule sum_list_addf)
  also have "\<dots> = f x + sum_list (map f xs)"
    using sum_list_single_key [OF assms(1) gx] Cons.IH [OF sub] by simp
  finally show ?case by simp
qed

lemma sum_list_divide: "sum_list (map (\<lambda>c. c / t) xs) = sum_list xs / (t :: rat)"
  by (induction xs) (simp_all add: add_divide_distrib)

lemma elem_le_sum_list:
  "\<forall>v\<in>set vs. 0 \<le> (v :: rat) \<Longrightarrow> a \<in> set vs \<Longrightarrow> a \<le> sum_list vs"
proof (induction vs)
  case Nil
  then show ?case by simp
next
  case (Cons v vs)
  then have "0 \<le> sum_list vs" "0 \<le> v" by (simp_all add: sum_list_nonneg)
  with Cons show ?case by auto
qed

lemma fdiv_Fin_result:
  "fdiv c (Fin t) = Fin v \<Longrightarrow> t \<noteq> 0 \<Longrightarrow> c = Fin (fin_val c) \<and> v = fin_val c / t"
  by (cases c) (auto simp: fin_Fin_iff split: if_splits)

subsection \<open>Pivot tables of amounts\<close>

text \<open>The quarter and the year matrix are the same pivot over two period keys; the facts
  below hold for any period key.\<close>

lemma pivot_fields:
  fixes per :: "row \<Rightarrow> 'p::linorder" and rs :: "row list"
  defines "fr \<equiv> unstack (Fin 0) (groupby_sum (\<lambda>r. (per r, Brand r)) Amount rs)"
  shows "index fr = sort (remdups (map fst (group_keys (\<lambda>r. (per r, Brand r)) rs)))"
    and "columns fr = sort (remdups (map snd (group_keys (\<lambda>r. (per r, Brand r)) rs)))"
    and "cells fr =
     map (\<lambda>q. map (\<lambda>b. fsum_skipna (map Amount (filter (\<lambda>r. (per r, Brand r) = (q, b)) rs)))
                 (columns fr))
         (index fr)"
proof -
  have m: "map (\<lambda>e. fst (fst e)) s = map fst (map fst s)"
    "map (\<lambda>e. snd (fst e)) s = map snd (map fst s)" for s :: "(('p \<times> string) \<times> fl) list"
    by simp_all
  show "index fr = sort (remdups (map fst (group_keys (\<lambda>r. (per r, Brand r)) rs)))"
    unfolding fr_def unstack_fields m map_fst_groupby_sum ..
  show "columns fr = sort (remdups (map snd (group_keys (\<lambda>r. (per r, Brand r)) rs)))"
    unfolding fr_def unstack_fields m map_fst_groupby_sum ..
  show "cells fr =
     map (\<lambda>q. map (\<lambda>b. fsum_skipna (map Amount (filter (\<lambda>r. (per r, Brand r) = (q, b)) rs)))
                 (columns fr))
         (index fr)"
    unfolding fr_def unstack_fields pivot_lookup ..
qed

lemma pivot_columns:
  fixes per :: "row \<Rightarrow> 'p::linorder" and rs :: "row list"
  defines "fr \<equiv> unstack (Fin 0) (groupby_sum (\<lambda>r. (per r, Brand r)) Amount rs)"
  shows "distinct (columns fr)" and "set (columns fr) = Brand ` set rs"
  unfolding fr_def by (auto simp: pivot_fields(2) set_group_keys image_iff)

lemma pivot_row:
  fixes per :: "row \<Rightarrow> 'p::linorder" and rs :: "row list"
  defines "fr \<equiv> unstack (Fin 0) (groupby_sum (\<lambda>r. (per r, Brand r)) Amount rs)"
  assumes "i < length (index fr)"
  shows "cells fr ! i =
      map (\<lambda>b. fsum_skipna (map Amount
              (filter (\<lambda>r. Brand r = b) (filter (\<lambda>r. per r = index fr ! i) rs))))
          (columns fr)"
proof -
  have f: "filter (\<lambda>r. (per r, Brand r) = (q, b)) rs
      = filter (\<lambda>r. Brand r = b) (filter (\<lambda>r. per r = q) rs)" for q b
    by (simp add: conj_commute)
  from assms(2) show ?thesis
    unfolding fr_def by (subst pivot_fields(3)) (simp add: f)
qed

lemma div_by_row_sum_fields:
  "index (div_by_row_sum fr) = index fr"
  "columns (div_by_row_sum fr) = columns fr"
  "cells (div_by_row_sum fr) =
     map2 (\<lambda>cs total. map (\<lambda>c. fdiv c total) cs) (cells fr) (sum_axis1 fr)"
  by (simp_all add: div_by_row_sum_def)

lemma div_by_row_sum_row:
  "i < length (cells fr) \<Longrightarrow>
     cells (div_by_row_sum fr) ! i = map (\<lambda>c. fdiv c (sum_axis1 fr ! i)) (cells fr ! i)"
  by (simp add: div_by_row_sum_fields sum_axis1_def)

text \<open>One row of cells with a finite total that is not zero.\<close>

lemma shares_finite_sum:
  assumes t: "fsum_skipna cs = Fin t" "t \<noteq> 0"
    and s: "fsum (map (\<lambda>c. fdiv c (Fin t)) cs) = Fin s"
  shows "s = 1" and "\<forall>c\<in>set cs. c = Fin (fin_val c)"
proof -
  note f = fsum_Fin [OF s]
  have c: "c = Fin (fin_val c) \<and> fin_val (fdiv c (Fin t)) = fin_val c / t" if "c \<in> set cs" for c
  proof -
    from that f(1) have "fdiv c (Fin t) = Fin (fin_val (fdiv c (Fin t)))" by simp
    from fdiv_Fin_result [OF this t(2)] show ?thesis by simp
  qed
  then show "\<forall>c\<in>set cs. c = Fin (fin_val c)" by blast
  from c have "map (\<lambda>c. fin_val (fdiv c (Fin t))) cs = map (\<lambda>c. fin_val c / t) cs" by simp
  with f(2) have "s = sum_list (map (\<lambda>c. fin_val c / t) cs)" by (simp add: comp_def)
  also have "\<dots> = sum_list (map fin_val cs) / t"
    using sum_list_divide [of t "map fin_val cs"] by (simp add: comp_def)
  also from fsum_skipna_Fin(2) [OF t(1)] have "sum_list (map fin_val cs) = t" by simp
  finally show "s = 1" using t(2) by simp
qed

lemma shares_nonneg_sum:
  assumes t: "fsum_skipna cs = Fin t" "t \<noteq> 0"
    and n: "\<forall>c\<in>set cs. \<exists>a. c = Fin a \<and> 0 \<le> a"
  shows "fsum (map (\<lambda>c. fdiv c (Fin t)) cs) = Fin 1"
proof -
  define vs where "vs = map fin_val cs"
  from n have cs: "cs = map Fin vs" unfolding vs_def by (induction cs) auto
  from n have nn: "\<forall>v\<in>set vs. 0 \<le> v" unfolding vs_def by auto
  from t(1) have "fsum (map Fin vs) = Fin t" by (simp add: cs fsum_skipna_Fins)
  from fsum_Fin(2) [OF this] have tv: "t = sum_list vs" by (simp add: comp_def)
  from nn have "0 \<le> sum_list vs" by (simp add: sum_list_nonneg)
  with tv t(2) have pos: "0 < t" by simp
  have sh: "fdiv (Fin v) (Fin t) = Fin (v / t)" if "v \<in> set vs" for v
  proof -
    from that nn have "0 \<le> v" by simp
    moreover from elem_le_sum_list [OF nn that] tv have "v \<le> t" by simp
    ultimately have "0 \<le> v / t" "v / t \<le> 1" using pos by simp_all
    then have "\<bar>v / t\<bar> \<le> 1000000" by simp
    then show ?thesis using t(2) by (simp add: fin_small)
  qed
  then have "map (\<lambda>c. fdiv c (Fin t)) cs = map Fin (map (\<lambda>v. v / t) vs)"
    by (simp add: cs)
  moreover have "fsum (map Fin (map (\<lambda>v. v / t) vs)) = Fin (sum_list (map (\<lambda>v. v / t) vs))"
  proof (rule fsum_nonneg)
    from nn pos show "\<forall>v\<in>set (map (\<lambda>v. v / t) vs). 0 \<le> v" by simp
    from tv t(2) have "sum_list (map (\<lambda>v. v / t) vs) = 1" by (simp add: sum_list_divide)
    with overflow_bound_large show "sum_list (map (\<lambda>v. v / t) vs) < overflow_bound" by simp
  qed
  moreover from tv t(2) have "sum_list (map (\<lambda>v. v / t) vs) = 1" by (simp add: sum_list_divide)
  ultimately show ?thesis by simp
qed

text \<open>When every cell of a period is finite, no amount of the period is infinite and the
  cells add up to the amounts of all rows of the period.\<close>

lemma pivot_row_amounts:
  fixes per :: "row \<Rightarrow> 'p::linorder" and rs :: "row list"
  defines "fr \<equiv> unstack (Fin 0) (groupby_sum (\<lambda>r. (per r, Brand r)) Amount rs)"
  assumes i: "i < length (index fr)"
    and c: "\<forall>c\<in>set (cells fr ! i). c = Fin (fin_val c)"
  shows "\<forall>r\<in>set (filter (\<lambda>r. per r = index fr ! i) rs). Amount r \<noteq> PInf \<and> Amount r \<noteq> NInf"
    and "sum_list (map fin_val (cells fr ! i))
           = sum_list (map (\<lambda>r. fin_val (Amount r)) (filter (\<lambda>r. per r = index fr ! i) rs))"
proof -
  let ?xs = "filter (\<lambda>r. per r = index fr ! i) rs"
  let ?g = "\<lambda>b. map Amount (filter (\<lambda>r. Brand r = b) ?xs)"
  have row: "cells fr ! i = map (\<lambda>b. fsum_skipna (?g b)) (columns fr)"
    using i unfolding fr_def by (rule pivot_row)
  have cols: "distinct (columns fr)" "set (columns fr) = Brand ` set rs"
    unfolding fr_def by (rule pivot_columns)+
  have g: "fsum_skipna (?g b) = Fin (sum_list (map fin_val (?g b))) \<and>
      (\<forall>x\<in>set (?g b). x = NaN \<or> x = Fin (fin_val x))" if "b \<in> set (columns fr)" for b
  proof -
    from that row have "fsum_skipna (?g b) \<in> set (cells fr ! i)" by simp
    with c have e: "fsum_skipna (?g b) = Fin (fin_val (fsum_skipna (?g b)))" by simp
    from fsum_skipna_Fin [OF e] e show ?thesis by simp
  qed
  show "\<forall>r\<in>set ?xs. Amount r \<noteq> PInf \<and> Amount r \<noteq> NInf"
  proof
    fix r assume r: "r \<in> set ?xs"
    then have "Brand r \<in> set (columns fr)" by (simp add: cols(2))
    from g [OF this] r have "Amount r = NaN \<or> Amount r = Fin (fin_val (Amount r))" by simp
    then show "Amount r \<noteq> PInf \<and> Amount r \<noteq> NInf" by auto
  qed
  have "map fin_val (cells fr ! i)
      = map (\<lambda>b. sum_list (map (\<lambda>r. fin_val (Amount r)) (filter (\<lambda>r. Brand r = b) ?xs)))
          (columns fr)"
    unfolding row using g by (simp add: comp_def)
  moreover have "Brand ` set ?xs \<subseteq> set (columns fr)" by (auto simp: cols(2))
  ultimately show "sum_list (map fin_val (cells fr ! i))
           = sum_list (map (\<lambda>r. fin_val (Amount r)) ?xs)"
    using sum_list_by_groups [OF cols(1), of Brand ?xs "\<lambda>r. fin_val (Amount r)"] by simp
qed

lemma pivot_shares:
  fixes per :: "row \<Rightarrow> 'p::linorder" and rs :: "row list"
  defines "fr \<equiv> unstack (Fin 0) (groupby_sum (\<lambda>r. (per r, Brand r)) Amount rs)"
  assumes i: "i < length (index fr)" and t: "sum_axis1 fr ! i = Fin t" "t \<noteq> 0"
  shows "fsum (cells (div_by_row_sum fr) ! i) = Fin s \<Longrightarrow>
           s = 1 \<and>
           (\<forall>r\<in>set (filter (\<lambda>r. per r = index fr ! i) rs).
              Amount r \<noteq> PInf \<and> Amount r \<noteq> NInf) \<and>
           sum_list (map (\<lambda>r. fin_val (Amount r)) (filter (\<lambda>r. per r = index fr ! i) rs)) = t"
    and "\<forall>c\<in>set (cells fr ! i). \<exists>a. c = Fin a \<and> 0 \<le> a \<Longrightarrow>
           fsum (cells (div_by_row_sum fr) ! i) = Fin 1"
proof -
  from i have len: "i < length (cells fr)"
    unfolding fr_def by (simp add: unstack_shape(1))
  from len t(1) have tot: "fsum_skipna (cells fr ! i) = Fin t"
    by (simp add: sum_axis1_def)
  from len t(1) have sh: "cells (div_by_row_sum fr) ! i
      = map (\<lambda>c. fdiv c (Fin t)) (cells fr ! i)"
    by (simp add: div_by_row_sum_row)
  show "\<forall>c\<in>set (cells fr ! i). \<exists>a. c = Fin a \<and> 0 \<le> a \<Longrightarrow>
           fsum (cells (div_by_row_sum fr) ! i) = Fin 1"
    unfolding sh using tot t(2) by (rule shares_nonneg_sum)
  assume "fsum (cells (div_by_row_sum fr) ! i) = Fin s"
  then have s: "fsum (map (\<lambda>c. fdiv c (Fin t)) (cells fr ! i)) = Fin s" by (simp add: sh)
  note a = shares_finite_sum [OF tot t(2) s]
  note b = pivot_row_amounts [of i per rs, folded fr_def, OF i a(2)]
  from fsum_skipna_Fin(2) [OF tot] b(2)
  have "sum_list (map (\<lambda>r. fin_val (Amount r)) (filter (\<lambda>r. per r = index fr ! i) rs)) = t"
    by simp
  with a(1) b(1) show "s = 1 \<and>
           (\<forall>r\<in>set (filter (\<lambda>r. per r = index fr ! i) rs).
              Amount r \<noteq> PInf \<and> Amount r \<noteq> NInf) \<and>
           sum_list (map (\<lambda>r. fin_val (Amount r)) (filter (\<lambda>r. per r = index fr ! i) rs)) = t"
    by blast
qed

subsection \<open>The sample sheets, computed\<close>

lemma sample_labels:
  "quarter_label (2023, 1) = ''2023Q1''" "month_label (2023, 1) = ''2023-01''"
  "quarter_label (2023, Suc 0) = ''2023Q1''" "month_label (2023, Suc 0) = ''2023-01''"
  by (simp_all add: quarter_label_def month_label_def dec.simps digit_def)

lemma fsum_skipna_small:
  "fsum_skipna [] = Fin 0"
  "\<bar>a\<bar> \<le> 1000000 \<Longrightarrow> fsum_skipna [Fin a] = Fin a"
  "\<bar>a\<bar> \<le> 1000000 \<Longrightarrow> \<bar>a + b\<bar> \<le> 1000000 \<Longrightarrow> fsum_skipna [Fin a, Fin b] = Fin (a + b)"
  by (simp_all add: fsum_skipna_def fsum_def fin_small)

lemma groupby_sum_one:
  "groupby_sum key val [e] = [(key e, fsum_skipna [val e])]"
  by (simp add: groupby_sum_def group_keys_def)

lemma groupby_sum_two_same:
  "key e1 = key e2 \<Longrightarrow> groupby_sum key val [e1, e2] = [(key e1, fsum_skipna [val e1, val e2])]"
  by (simp add: groupby_sum_def group_keys_def)

lemma groupby_sum_two_less:
  "key e1 < key e2 \<Longrightarrow>
     groupby_sum key val [e1, e2] =
       [(key e1, fsum_skipna [val e1]), (key e2, fsum_skipna [val e2])]"
  by (auto simp: groupby_sum_def group_keys_def)

lemma two_brand_loaded:
  "load_data_local two_brand_sheet =
     (([enrich 1 (groupby_count ASIN
           [sample_row 202301 ''A1'' ''X'' 10 1, sample_row 202301 ''B1'' ''Y'' 20 2])
          (sample_row 202301 ''A1'' ''X'' 10 1) (2023, 1),
        enrich 1 (groupby_count ASIN
           [sample_row 202301 ''A1'' ''X'' 10 1, sample_row 202301 ''B1'' ''Y'' 20 2])
          (sample_row 202301 ''B1'' ''Y'' 20 2) (2023, 1)], 1), [])"
proof -
  have n: "nunique [202301, 202301 :: nat] = 1" by (simp add: nunique_def)
  show ?thesis
    by (simp add: two_brand_sheet_def load_data_local_def try_body_Sheet to_datetime_202301 n)
qed

lemma two_brand_pivots:
  "q_data (fst (fst (load_data_local two_brand_sheet))) =
      \<lparr>index = [''2023Q1''], columns = [''X'', ''Y''], cells = [[Fin 10, Fin 20]]\<rparr>"
  "y_data (fst (fst (load_data_local two_brand_sheet))) =
      \<lparr>index = [2023], columns = [''X'', ''Y''], cells = [[Fin 10, Fin 20]]\<rparr>"
  unfolding two_brand_loaded
  by (simp_all add: q_data_def y_data_def groupby_sum_two_less unstack_def sample_labels
        to_numeric_fillna_Num fsum_skipna_small)

lemma two_brand_amounts:
  "map Amount (fst (fst (load_data_local two_brand_sheet))) = [Fin 10, Fin 20]"
  "map Quarter (fst (fst (load_data_local two_brand_sheet))) = [''2023Q1'', ''2023Q1'']"
  "map Year (fst (fst (load_data_local two_brand_sheet))) = [2023, 2023]"
  unfolding two_brand_loaded
  by (simp_all add: to_numeric_fillna_Num sample_labels)

subsection \<open>Shares of a period\<close>




subsection \<open>Which views see the brand filter\<close>

lemma all_columns_complete:
  "run_steps all_columns script_steps [] =
     ([Area_monthly_sales, Bar_year_ink, Line_avg_metrics,
       Table_yoy, Table_quarter_share, Table_year_share,
       Scatter_stability, Table_top20, Table_at_risk,
       Bar_price_q, Table_price_tbl,
       Sunburst_packaging, Box_price, Treemap_nib, Violin_unit_price, Line_c_trend], None)"
  by (simp add: script_steps_def all_columns_def)

text \<open>
  C5. Two rows of one month, brand X with amount 10 and brand Y with amount 20, and only
  X selected in the sidebar. The monthly sales of tab 1 hold X alone, but the quarter and
  year share matrices of tab 2, the price-tier sums of tab 3 and the colour trend of
  tab 4 are computed from the unfiltered table: Y keeps its column and its two thirds,
  and the totals are 30.
\<close>

theorem unselected_brand_in_views:
  "script (Sheet all_columns
        [sample_row 202301 ''A1'' ''X'' 10 1, sample_row 202301 ''B1'' ''Y'' 20 2])
      [''X''] =
     Rendered []
       \<lparr>total_periods = 1,
        all_brands = [''X'', ''Y''],
        tab1_monthly_sales = [((''2023-01'', ''X''), Fin 10)],
        tab2_yoy = \<lparr>index = [''2023Q1''], columns = [''X'', ''Y''], cells = [[Gap, Gap]]\<rparr>,
        tab2_quarter_share =
          \<lparr>index = [''2023Q1''], columns = [''X'', ''Y''],
           cells = [[Percent (Fin (1 / 3)), Percent (Fin (2 / 3))]]\<rparr>,
        tab2_year_share =
          \<lparr>index = [2023], columns = [''X'', ''Y''],
           cells = [[Percent (Fin (1 / 3)), Percent (Fin (2 / 3))]]\<rparr>,
        tab3_price_q = [((''2023Q1'', ''10-20''), Fin 30)],
        tab4_c_trend = [((''2023-01'', ''Independent''), Fin 30)]\<rparr>"
proof -
  let ?rows = "[sample_row 202301 ''A1'' ''X'' 10 1, sample_row 202301 ''B1'' ''Y'' 20 2]"
  let ?e1 = "enrich 1 (groupby_count ASIN ?rows) (sample_row 202301 ''A1'' ''X'' 10 1) (2023, 1)"
  let ?e2 = "enrich 1 (groupby_count ASIN ?rows) (sample_row 202301 ''B1'' ''Y'' 20 2) (2023, 1)"
  have src: "Sheet all_columns ?rows = two_brand_sheet"
    by (simp add: two_brand_sheet_def)
  have l: "load_data_local two_brand_sheet = (([?e1, ?e2], 1), [])"
    by (rule two_brand_loaded)
  have hd: "header_of two_brand_sheet = all_columns"
    by (simp add: header_of_def two_brand_sheet_def)
  have f: "df_filtered [''X''] [?e1, ?e2] = [?e1]"
    by (simp add: df_filtered_def isin_rows_def)
  have ms: "monthly_sales [?e1] = [((''2023-01'', ''X''), Fin 10)]"
    by (simp add: monthly_sales_def groupby_sum_one sample_labels to_numeric_fillna_Num
          fsum_skipna_small)
  have q: "q_data [?e1, ?e2] =
      \<lparr>index = [''2023Q1''], columns = [''X'', ''Y''], cells = [[Fin 10, Fin 20]]\<rparr>"
    using two_brand_pivots(1) unfolding l by simp
  have y: "y_data [?e1, ?e2] =
      \<lparr>index = [2023], columns = [''X'', ''Y''], cells = [[Fin 10, Fin 20]]\<rparr>"
    using two_brand_pivots(2) unfolding l by simp
  have yoy: "style_format (pct_change 4
        \<lparr>index = [''2023Q1''], columns = [''X'', ''Y''], cells = [[Fin 10, Fin 20]]\<rparr>) =
      \<lparr>index = [''2023Q1''], columns = [''X'', ''Y''], cells = [[Gap, Gap]]\<rparr>"
    by (simp add: style_format_def pct_change_def shift_def fsub_def)
  have qs: "style_format (div_by_row_sum
        \<lparr>index = [''2023Q1''], columns = [''X'', ''Y''], cells = [[Fin 10, Fin 20]]\<rparr>) =
      \<lparr>index = [''2023Q1''], columns = [''X'', ''Y''],
       cells = [[Percent (Fin (1 / 3)), Percent (Fin (2 / 3))]]\<rparr>"
    by (simp add: style_format_def div_by_row_sum_def sum_axis1_def fsum_skipna_small fin_small)
  have ys: "style_format (div_by_row_sum
        \<lparr>index = [2023 :: nat], columns = [''X'', ''Y''], cells = [[Fin 10, Fin 20]]\<rparr>) =
      \<lparr>index = [2023], columns = [''X'', ''Y''],
       cells = [[Percent (Fin (1 / 3)), Percent (Fin (2 / 3))]]\<rparr>"
    by (simp add: style_format_def div_by_row_sum_def sum_axis1_def fsum_skipna_small fin_small)
  have pq: "price_q [?e1, ?e2] = [((''2023Q1'', ''10-20''), Fin 30)]"
    by (simp add: price_q_def groupby_sum_two_same sample_labels to_numeric_fillna_Num
          fsum_skipna_small)
  have ct: "c_trend [?e1, ?e2] = [((''2023-01'', ''Independent''), Fin 30)]"
    by (simp add: c_trend_def groupby_sum_two_same sample_labels to_numeric_fillna_Num
          fsum_skipna_small Color_Type_def)
  have ab: "sort (remdups (map Brand [?e1, ?e2])) = [''X'', ''Y'']"
    by simp
  have ne: "[?e1, ?e2] \<noteq> []"
    by simp
  show ?thesis
    unfolding src script_def l hd all_columns_complete
    by (simp only: prod.case option.case Let_def f ms q y yoy qs ys pq ct ab ne if_False)
qed

end
